theory Spec2Isabelle
  imports Main "HOL-Library.AList"
begin

section \<open>Activation counters (dynamicAppend/common: calcAppCount, isAllAppsUnmounted)\<close>

text \<open>
  \<^verbatim>\<open>appsCounterMap\<close> is a JavaScript \<^verbatim>\<open>Map\<close> from the application name to the pair
  of patch counts. A \<^verbatim>\<open>Map\<close> keeps its keys in insertion order and \<^verbatim>\<open>set\<close> on a present
  key overwrites the entry in place, which is what \<open>AList.update\<close> does on an association
  list. The counts are JavaScript numbers that only ever take integer values here; they
  are modelled as \<open>int\<close>, so that a negative count is a value the model can express.
\<close>

record app_count =
  bootstrappingPatchCount :: int
  mountingPatchCount :: int

datatype calc_type = Increase | Decrease

datatype patch_status = Bootstrapping | Mounting

type_synonym apps_counter_map = "(string \<times> app_count) list"

text \<open>The field \<^verbatim>\<open>appCount[`${status}PatchCount`]\<close>, read and written.\<close>

fun patch_count :: "patch_status \<Rightarrow> app_count \<Rightarrow> int" where
  "patch_count Bootstrapping c = bootstrappingPatchCount c"
| "patch_count Mounting c = mountingPatchCount c"

fun patch_count_update :: "patch_status \<Rightarrow> int \<Rightarrow> app_count \<Rightarrow> app_count" where
  "patch_count_update Bootstrapping n c = c\<lparr>bootstrappingPatchCount := n\<rparr>"
| "patch_count_update Mounting n c = c\<lparr>mountingPatchCount := n\<rparr>"

text \<open>\<^verbatim>\<open>appsCounterMap.get(appName) || { bootstrappingPatchCount: 0, mountingPatchCount: 0 }\<close>\<close>

definition get_app_count :: "apps_counter_map \<Rightarrow> string \<Rightarrow> app_count" where
  "get_app_count m appName =
     (case map_of m appName of
        None \<Rightarrow> \<lparr>bootstrappingPatchCount = 0, mountingPatchCount = 0\<rparr>
      | Some c \<Rightarrow> c)"

definition calcAppCount ::
  "string \<Rightarrow> calc_type \<Rightarrow> patch_status \<Rightarrow> apps_counter_map \<Rightarrow> apps_counter_map" where
  "calcAppCount appName calcType status m =
     (let appCount = get_app_count m appName;
          appCount' =
            (case calcType of
               Increase \<Rightarrow> patch_count_update status (patch_count status appCount + 1) appCount
             | Decrease \<Rightarrow>
                 if patch_count status appCount > 0
                 then patch_count_update status (patch_count status appCount - 1) appCount
                 else appCount)
      in AList.update appName appCount' m)"

definition isAllAppsUnmounted :: "apps_counter_map \<Rightarrow> bool" where
  "isAllAppsUnmounted m =
     list_all (\<lambda>(name, c). bootstrappingPatchCount c = 0 \<and> mountingPatchCount c = 0) m"

text \<open>A sequence of calls of \<^verbatim>\<open>calcAppCount\<close>, starting from the map the module creates.\<close>

type_synonym calc_call = "string \<times> calc_type \<times> patch_status"

fun calc_calls :: "calc_call list \<Rightarrow> apps_counter_map \<Rightarrow> apps_counter_map" where
  "calc_calls [] m = m"
| "calc_calls ((appName, calcType, status) # cs) m =
     calc_calls cs (calcAppCount appName calcType status m)"

definition counts_nonneg :: "apps_counter_map \<Rightarrow> bool" where
  "counts_nonneg m =
     list_all (\<lambda>(name, c). 0 \<le> bootstrappingPatchCount c \<and> 0 \<le> mountingPatchCount c) m"

section \<open>JavaScript objects as far as the legacy sandbox uses them\<close>

text \<open>
  A \<^verbatim>\<open>PropertyKey\<close> is a string (a number used as a key is its string) or a symbol.
  The shared global is modelled as an extensible object of own data properties, each with
  its value and its \<^verbatim>\<open>writable\<close>, \<^verbatim>\<open>enumerable\<close> and \<^verbatim>\<open>configurable\<close> attributes.
  Accessor properties are outside the model, and so is the prototype chain but for the
  one method the sandbox calls on the global, \<^verbatim>\<open>hasOwnProperty\<close> (see
  \<open>call_hasOwnProperty\<close> below). The source files are ES modules, so their code runs in
  strict mode: an assignment to a property that is not writable and a \<^verbatim>\<open>delete\<close> of a
  property that is not configurable throw a \<^verbatim>\<open>TypeError\<close>. The sandbox's global
  context is taken to be the global object itself, as it is when the constructor is
  called without one (\<^verbatim>\<open>globalContext = window\<close>): the identifiers \<^verbatim>\<open>Object\<close> and
  \<^verbatim>\<open>Reflect\<close> of the sandbox's code are then properties of that same object, read at
  each use (see \<open>global_builtin\<close> below).
\<close>

datatype prop_key = KString string | KSymbol nat

fun is_symbol :: "prop_key \<Rightarrow> bool" where
  "is_symbol (KSymbol n) = True"
| "is_symbol (KString s) = False"

datatype js_error = TypeError | ReferenceError

type_synonym 'a thrown = "js_error + 'a"

text \<open>
  What a call of a function as a method of the global, with a property key as its
  argument, does: it returns a value, of which the model keeps the truth value, or
  throws. A body lists the outcome for some keys and gives the outcome for every other
  key. Such a call is taken to touch neither the global nor the sandbox.
\<close>

datatype fn_body = FnBody "(prop_key \<times> bool thrown) list" "bool thrown"

fun call_fn :: "fn_body \<Rightarrow> prop_key \<Rightarrow> bool thrown" where
  "call_fn (FnBody outcomes otherwise) p =
     (case map_of outcomes p of None \<Rightarrow> otherwise | Some r \<Rightarrow> r)"

text \<open>
  Values. \<open>VRawWindow\<close> is the real shared global object and \<open>VProxy\<close> the proxy object
  of the sandbox under study. A function value carries its identity, whether it is a
  bound function, whether it is constructable, and its body. \<open>VBound n f\<close> is the
  function \<open>n\<close> bound to the real global by \<^verbatim>\<open>rebindTarget2Fn\<close>. \<open>VBuiltinObject\<close> and
  \<open>VBuiltinReflect\<close> are the built-in \<^verbatim>\<open>Object\<close> constructor and the built-in
  \<^verbatim>\<open>Reflect\<close> object. \<open>VObject n\<close> is any other object, with no method of its own among
  those the sandbox calls.
\<close>

datatype js_value =
    VUndefined
  | VNull
  | VBool bool
  | VNum int
  | VStr string
  | VObject nat
  | VFunction nat bool bool fn_body
  | VBound nat fn_body
  | VRawWindow
  | VProxy
  | VBuiltinObject
  | VBuiltinReflect

record js_prop =
  pvalue :: js_value
  writable :: bool
  enumerable :: bool
  configurable :: bool

text \<open>A property descriptor given to \<^verbatim>\<open>defineProperty\<close>: every field may be absent.\<close>

record prop_descriptor =
  d_value :: "js_value option"
  d_writable :: "bool option"
  d_enumerable :: "bool option"
  d_configurable :: "bool option"

type_synonym js_object = "prop_key \<rightharpoonup> js_prop"

text \<open>The built-in \<^verbatim>\<open>Object.prototype.hasOwnProperty\<close>, applied to the object.\<close>

definition hasOwnProperty :: "js_object \<Rightarrow> prop_key \<Rightarrow> bool" where
  "hasOwnProperty g p = (g p \<noteq> None)"

text \<open>
  \<^verbatim>\<open>g.hasOwnProperty(p)\<close>: the method is looked up on the object at each call. An object
  without an own property of that name inherits the built-in one; otherwise the value
  of the own property is called, which throws a \<^verbatim>\<open>TypeError\<close> when it is not a
  function.
\<close>

definition call_hasOwnProperty :: "js_object \<Rightarrow> prop_key \<Rightarrow> bool thrown" where
  "call_hasOwnProperty g p =
     (case g (KString ''hasOwnProperty'') of
        None \<Rightarrow> Inr (hasOwnProperty g p)
      | Some pr \<Rightarrow>
          (case pvalue pr of
             VFunction n bounded constructable f \<Rightarrow> call_fn f p
           | VBound n f \<Rightarrow> call_fn f p
           | other \<Rightarrow> Inl TypeError))"

text \<open>
  A method call on \<^verbatim>\<open>Object\<close> or \<^verbatim>\<open>Reflect\<close> in the sandbox's code. The identifier is a
  binding of the global, read at the call: a global without a property of that name
  makes the reference throw a \<^verbatim>\<open>ReferenceError\<close>; when the property holds the built-in
  object the call is that of the built-in method; any other value has no method of
  the name called, and the call throws a \<^verbatim>\<open>TypeError\<close>.
\<close>

definition global_builtin :: "js_object \<Rightarrow> string \<Rightarrow> js_value \<Rightarrow> unit thrown" where
  "global_builtin g nm builtin =
     (case g (KString nm) of
        None \<Rightarrow> Inl ReferenceError
      | Some pr \<Rightarrow> if pvalue pr = builtin then Inr () else Inl TypeError)"

text \<open>\<^verbatim>\<open>g[p]\<close>\<close>

definition js_get :: "js_object \<Rightarrow> prop_key \<Rightarrow> js_value" where
  "js_get g p = (case g p of None \<Rightarrow> VUndefined | Some pr \<Rightarrow> pvalue pr)"

text \<open>\<^verbatim>\<open>g[p] = v\<close> in strict mode.\<close>

definition js_assign :: "js_object \<Rightarrow> prop_key \<Rightarrow> js_value \<Rightarrow> js_object thrown" where
  "js_assign g p v =
     (case g p of
        None \<Rightarrow>
          Inr (g(p \<mapsto> \<lparr>pvalue = v, writable = True, enumerable = True, configurable = True\<rparr>))
      | Some pr \<Rightarrow> if writable pr then Inr (g(p \<mapsto> pr\<lparr>pvalue := v\<rparr>)) else Inl TypeError)"

text \<open>\<^verbatim>\<open>delete g[p]\<close> in strict mode.\<close>

definition js_delete :: "js_object \<Rightarrow> prop_key \<Rightarrow> js_object thrown" where
  "js_delete g p =
     (case g p of
        None \<Rightarrow> Inr g
      | Some pr \<Rightarrow> if configurable pr then Inr (g(p := None)) else Inl TypeError)"

text \<open>
  ECMAScript's ValidateAndApplyPropertyDescriptor on data properties of an extensible
  object: \<open>None\<close> when the definition is rejected.
\<close>

definition field_differs :: "'a option \<Rightarrow> 'a \<Rightarrow> bool" where
  "field_differs d cur = (case d of None \<Rightarrow> False | Some x \<Rightarrow> x \<noteq> cur)"

definition field_or :: "'a option \<Rightarrow> 'a \<Rightarrow> 'a" where
  "field_or d cur = (case d of None \<Rightarrow> cur | Some x \<Rightarrow> x)"

definition validate_and_apply :: "js_object \<Rightarrow> prop_key \<Rightarrow> prop_descriptor \<Rightarrow> js_object option" where
  "validate_and_apply g p d =
     (case g p of
        None \<Rightarrow>
          Some (g(p \<mapsto> \<lparr>pvalue = field_or (d_value d) VUndefined,
                         writable = field_or (d_writable d) False,
                         enumerable = field_or (d_enumerable d) False,
                         configurable = field_or (d_configurable d) False\<rparr>))
      | Some pr \<Rightarrow>
          if \<not> configurable pr \<and>
             (d_configurable d = Some True \<or>
              field_differs (d_enumerable d) (enumerable pr) \<or>
              (\<not> writable pr \<and>
                 (d_writable d = Some True \<or> field_differs (d_value d) (pvalue pr))))
          then None
          else Some (g(p \<mapsto> \<lparr>pvalue = field_or (d_value d) (pvalue pr),
                              writable = field_or (d_writable d) (writable pr),
                              enumerable = field_or (d_enumerable d) (enumerable pr),
                              configurable = field_or (d_configurable d) (configurable pr)\<rparr>)))"

text \<open>
  The built-in \<^verbatim>\<open>Reflect.defineProperty\<close> reports a rejection, the built-in
  \<^verbatim>\<open>Object.defineProperty\<close> throws on it.
\<close>

definition reflect_defineProperty :: "js_object \<Rightarrow> prop_key \<Rightarrow> prop_descriptor \<Rightarrow> bool \<times> js_object" where
  "reflect_defineProperty g p d =
     (case validate_and_apply g p d of None \<Rightarrow> (False, g) | Some g' \<Rightarrow> (True, g'))"

definition object_defineProperty :: "js_object \<Rightarrow> prop_key \<Rightarrow> prop_descriptor \<Rightarrow> js_object thrown" where
  "object_defineProperty g p d =
     (case validate_and_apply g p d of None \<Rightarrow> Inl TypeError | Some g' \<Rightarrow> Inr g')"

section \<open>The legacy sandbox (sandbox/legacy/sandbox.ts)\<close>

text \<open>
  \<^verbatim>\<open>isPropConfigurable\<close> calls \<^verbatim>\<open>Object.getOwnPropertyDescriptor\<close>; its target is the
  global, on which \<^verbatim>\<open>Object\<close> is read too.
\<close>

definition isPropConfigurable :: "js_object \<Rightarrow> prop_key \<Rightarrow> bool thrown" where
  "isPropConfigurable target prop =
     (case global_builtin target ''Object'' VBuiltinObject of
        Inl e \<Rightarrow> Inl e
      | Inr u \<Rightarrow>
          (case target prop of
             None \<Rightarrow> Inr True
           | Some descriptor \<Rightarrow> Inr (configurable descriptor)))"

text \<open>
  The three bookkeeping maps are JavaScript \<^verbatim>\<open>Map\<close>s, iterated by \<^verbatim>\<open>forEach\<close> in
  insertion order: association lists, written with \<open>AList.update\<close>.
\<close>

type_synonym prop_map = "(prop_key \<times> js_value) list"

record legacy_sandbox =
  name :: string
  addedPropsMapInSandbox :: prop_map
  modifiedPropsOriginalValueMapInSandbox :: prop_map
  currentUpdatedPropsValueMap :: prop_map
  globalContext :: js_object
  sandboxRunning :: bool
  latestSetProp :: "prop_key option"

text \<open>The constructor: empty maps, and \<^verbatim>\<open>sandboxRunning = true\<close>.\<close>

definition LegacySandbox :: "string \<Rightarrow> js_object \<Rightarrow> legacy_sandbox" where
  "LegacySandbox nm g =
     \<lparr>name = nm, addedPropsMapInSandbox = [], modifiedPropsOriginalValueMapInSandbox = [],
      currentUpdatedPropsValueMap = [], globalContext = g, sandboxRunning = True,
      latestSetProp = None\<rparr>"

text \<open>
  \<^verbatim>\<open>setWindowProp\<close> mutates the global in place: the model returns the global as it is
  when the call returns or throws.
\<close>

definition setWindowProp ::
  "prop_key \<Rightarrow> js_value \<Rightarrow> bool \<Rightarrow> js_object \<Rightarrow> unit thrown \<times> js_object" where
  "setWindowProp prop v toDelete g =
     (if v = VUndefined \<and> toDelete then
        (case js_delete g prop of Inl e \<Rightarrow> (Inl e, g) | Inr g' \<Rightarrow> (Inr (), g'))
      else
        (case isPropConfigurable g prop of
           Inl e \<Rightarrow> (Inl e, g)
         | Inr propConfigurable \<Rightarrow>
             if propConfigurable \<and> \<not> is_symbol prop then
               (case global_builtin g ''Object'' VBuiltinObject of
                  Inl e \<Rightarrow> (Inl e, g)
                | Inr u \<Rightarrow>
                    (case object_defineProperty g prop
                            \<lparr>d_value = None, d_writable = Some True, d_enumerable = None,
                             d_configurable = Some True\<rparr> of
                       Inl e \<Rightarrow> (Inl e, g)
                     | Inr g' \<Rightarrow>
                         (case js_assign g' prop v of
                            Inl e \<Rightarrow> (Inl e, g')
                          | Inr g'' \<Rightarrow> (Inr (), g''))))
             else (Inr (), g)))"

text \<open>\<^verbatim>\<open>map.forEach((v, p) => f(p, v))\<close>: an exception ends the iteration.\<close>

fun forEach_prop ::
  "(prop_key \<Rightarrow> js_value \<Rightarrow> js_object \<Rightarrow> unit thrown \<times> js_object) \<Rightarrow> prop_map \<Rightarrow>
   js_object \<Rightarrow> unit thrown \<times> js_object" where
  "forEach_prop f [] g = (Inr (), g)"
| "forEach_prop f ((p, v) # kvs) g =
     (case f p v g of
        (Inl e, g') \<Rightarrow> (Inl e, g')
      | (Inr u, g') \<Rightarrow> forEach_prop f kvs g')"

definition active :: "legacy_sandbox \<Rightarrow> unit thrown \<times> legacy_sandbox" where
  "active s =
     (if \<not> sandboxRunning s then
        (case forEach_prop (\<lambda>p v. setWindowProp p v False) (currentUpdatedPropsValueMap s)
                (globalContext s) of
           (Inl e, g) \<Rightarrow> (Inl e, s\<lparr>globalContext := g\<rparr>)
         | (Inr u, g) \<Rightarrow> (Inr (), s\<lparr>globalContext := g, sandboxRunning := True\<rparr>))
      else (Inr (), s\<lparr>sandboxRunning := True\<rparr>))"

definition inactive :: "legacy_sandbox \<Rightarrow> unit thrown \<times> legacy_sandbox" where
  "inactive s =
     (case forEach_prop (\<lambda>p v. setWindowProp p v False)
             (modifiedPropsOriginalValueMapInSandbox s) (globalContext s) of
        (Inl e, g) \<Rightarrow> (Inl e, s\<lparr>globalContext := g\<rparr>)
      | (Inr u, g) \<Rightarrow>
          (case forEach_prop (\<lambda>p v. setWindowProp p VUndefined True)
                  (addedPropsMapInSandbox s) g of
             (Inl e, g') \<Rightarrow> (Inl e, s\<lparr>globalContext := g'\<rparr>)
           | (Inr u', g') \<Rightarrow> (Inr (), s\<lparr>globalContext := g', sandboxRunning := False\<rparr>)))"

text \<open>\<^verbatim>\<open>map.has(p)\<close>\<close>

definition map_has :: "prop_map \<Rightarrow> prop_key \<Rightarrow> bool" where
  "map_has m p = (map_of m p \<noteq> None)"

text \<open>
  \<^verbatim>\<open>setTrap\<close>. Its first test, \<^verbatim>\<open>rawWindow.hasOwnProperty(p)\<close>, calls whatever the
  global holds under \<^verbatim>\<open>hasOwnProperty\<close> at that moment; when that call throws, nothing
  has been recorded yet.
\<close>

definition setTrap ::
  "prop_key \<Rightarrow> js_value \<Rightarrow> js_value \<Rightarrow> bool \<Rightarrow> legacy_sandbox \<Rightarrow> bool thrown \<times> legacy_sandbox" where
  "setTrap p v originalValue sync2Window s =
     (if sandboxRunning s then
        (case call_hasOwnProperty (globalContext s) p of
           Inl e \<Rightarrow> (Inl e, s)
         | Inr own \<Rightarrow>
             (let s1 =
                    (if \<not> own then
                       s\<lparr>addedPropsMapInSandbox := AList.update p v (addedPropsMapInSandbox s)\<rparr>
                     else if \<not> map_has (modifiedPropsOriginalValueMapInSandbox s) p then
                       s\<lparr>modifiedPropsOriginalValueMapInSandbox :=
                           AList.update p originalValue (modifiedPropsOriginalValueMapInSandbox s)\<rparr>
                     else s);
                  s2 = s1\<lparr>currentUpdatedPropsValueMap :=
                            AList.update p v (currentUpdatedPropsValueMap s1)\<rparr>
              in if sync2Window then
                   (case js_assign (globalContext s2) p v of
                      Inl e \<Rightarrow> (Inl e, s2)
                    | Inr g' \<Rightarrow> (Inr True, s2\<lparr>globalContext := g', latestSetProp := Some p\<rparr>))
                 else (Inr True, s2\<lparr>latestSetProp := Some p\<rparr>)))
      else (Inr True, s))"

text \<open>The handlers of the proxy.\<close>

definition proxy_set :: "prop_key \<Rightarrow> js_value \<Rightarrow> legacy_sandbox \<Rightarrow> bool thrown \<times> legacy_sandbox" where
  "proxy_set p v s =
     (let originalValue = js_get (globalContext s) p
      in setTrap p v originalValue True s)"

text \<open>
  Modelled from the spec: \<^verbatim>\<open>isCallable\<close>, \<^verbatim>\<open>isBoundedFunction\<close> and \<^verbatim>\<open>isConstructable\<close>
  of \<^verbatim>\<open>utils\<close> are not among the sources; a function value carries their answers. The
  cache of bound functions makes repeated calls return the identical bound function,
  which \<open>VBound n f\<close> is.
\<close>

fun rebindTarget2Fn :: "js_value \<Rightarrow> js_value" where
  "rebindTarget2Fn (VFunction n bounded constructable f) =
     (if \<not> bounded \<and> \<not> constructable then VBound n f
      else VFunction n bounded constructable f)"
| "rebindTarget2Fn fn = fn"

definition proxy_get :: "prop_key \<Rightarrow> legacy_sandbox \<Rightarrow> js_value" where
  "proxy_get p s =
     (if p = KString ''top'' \<or> p = KString ''parent'' \<or> p = KString ''window'' \<or>
         p = KString ''self''
      then VProxy
      else rebindTarget2Fn (js_get (globalContext s) p))"

definition proxy_has :: "prop_key \<Rightarrow> legacy_sandbox \<Rightarrow> bool" where
  "proxy_has p s = hasOwnProperty (globalContext s) p"

definition proxy_defineProperty ::
  "prop_key \<Rightarrow> prop_descriptor \<Rightarrow> legacy_sandbox \<Rightarrow> bool thrown \<times> legacy_sandbox" where
  "proxy_defineProperty p attributes s =
     (let originalValue = js_get (globalContext s) p
      in case global_builtin (globalContext s) ''Reflect'' VBuiltinReflect of
           Inl e \<Rightarrow> (Inl e, s)
         | Inr u \<Rightarrow>
             (let (done', g') = reflect_defineProperty (globalContext s) p attributes;
                  v = js_get g' p
              in case setTrap p v originalValue False (s\<lparr>globalContext := g'\<rparr>) of
                   (Inl e, s') \<Rightarrow> (Inl e, s')
                 | (Inr b, s') \<Rightarrow> (Inr done', s')))"

text \<open>
  What guest code and the orchestrator do to a sandbox, one operation after another. An
  exception thrown by an operation reaches its caller; the sandbox object and the global
  stay as the operation left them.
\<close>

datatype sandbox_op =
    ProxySet prop_key js_value
  | ProxyDefineProperty prop_key prop_descriptor
  | Active
  | Inactive

fun sandbox_step :: "sandbox_op \<Rightarrow> legacy_sandbox \<Rightarrow> legacy_sandbox" where
  "sandbox_step (ProxySet p v) s = snd (proxy_set p v s)"
| "sandbox_step (ProxyDefineProperty p d) s = snd (proxy_defineProperty p d s)"
| "sandbox_step Active s = snd (active s)"
| "sandbox_step Inactive s = snd (inactive s)"

fun sandbox_run :: "sandbox_op list \<Rightarrow> legacy_sandbox \<Rightarrow> legacy_sandbox" where
  "sandbox_run [] s = s"
| "sandbox_run (x # xs) s = sandbox_run xs (sandbox_step x s)"


text \<open>The key that an operation writes or defines, if it is a write or a definition.\<close>

fun op_key :: "sandbox_op \<Rightarrow> prop_key option" where
  "op_key (ProxySet p v) = Some p"
| "op_key (ProxyDefineProperty p d) = Some p"
| "op_key Active = None"
| "op_key Inactive = None"

definition map_keys :: "prop_map \<Rightarrow> prop_key set" where
  "map_keys m = fst ` set m"

text \<open>The values an observer reads from the global: the own keys and what each holds.\<close>

definition global_values :: "js_object \<Rightarrow> prop_key \<Rightarrow> js_value option" where
  "global_values g p = map_option pvalue (g p)"

section \<open>Notions used to state and prove the properties of the legacy sandbox\<close>

text \<open>The keys of the bookkeeping maps and the own keys of the global.\<close>

definition added_keys :: "legacy_sandbox \<Rightarrow> prop_key set" where
  "added_keys s = map_keys (addedPropsMapInSandbox s)"

definition modified_keys :: "legacy_sandbox \<Rightarrow> prop_key set" where
  "modified_keys s = map_keys (modifiedPropsOriginalValueMapInSandbox s)"

definition own_keys :: "legacy_sandbox \<Rightarrow> prop_key set" where
  "own_keys s = dom (globalContext s)"

text \<open>
  What one operation may do to these sets: the maps only gain keys, a key newly recorded
  as added was not on the global, a key newly recorded as modified is on it, and only keys
  recorded as added leave the global.
\<close>

definition key_step :: "legacy_sandbox \<Rightarrow> legacy_sandbox \<Rightarrow> bool" where
  "key_step s s' \<longleftrightarrow>
     added_keys s \<subseteq> added_keys s' \<and>
     (added_keys s' - added_keys s) \<inter> own_keys s = {} \<and>
     modified_keys s \<subseteq> modified_keys s' \<and>
     modified_keys s' - modified_keys s \<subseteq> own_keys s' \<and>
     own_keys s - added_keys s \<subseteq> own_keys s'"

text \<open>
  Invariants of the key sets: the properties the global had when the sandbox was created
  stay on it and are never recorded as added; a key on the global that is not recorded as
  added stays so; a key recorded as modified is on the global or recorded as added.
\<close>

definition keeps_original :: "js_object \<Rightarrow> legacy_sandbox \<Rightarrow> bool" where
  "keeps_original g0 s \<longleftrightarrow> dom g0 \<subseteq> own_keys s \<and> added_keys s \<inter> dom g0 = {}"

definition settled :: "prop_key \<Rightarrow> legacy_sandbox \<Rightarrow> bool" where
  "settled p s \<longleftrightarrow> p \<notin> added_keys s \<and> p \<in> own_keys s"

definition modified_known :: "legacy_sandbox \<Rightarrow> bool" where
  "modified_known s \<longleftrightarrow> modified_keys s \<subseteq> added_keys s \<union> own_keys s"

definition current_keys :: "legacy_sandbox \<Rightarrow> prop_key set" where
  "current_keys s = map_keys (currentUpdatedPropsValueMap s)"

text \<open>
  The global has no own \<^verbatim>\<open>hasOwnProperty\<close>, so that \<^verbatim>\<open>setTrap\<close> calls the built-in
  one, and neither \<^verbatim>\<open>active()\<close> nor \<^verbatim>\<open>inactive()\<close> would put one there.
\<close>

definition builtin_in_place :: "legacy_sandbox \<Rightarrow> bool" where
  "builtin_in_place s \<longleftrightarrow>
     globalContext s (KString ''hasOwnProperty'') = None \<and>
     KString ''hasOwnProperty'' \<notin> modified_keys s \<and>
     KString ''hasOwnProperty'' \<notin> current_keys s"






text \<open>
  Globals used as concrete inputs. Each has the built-in \<^verbatim>\<open>Object\<close> and \<^verbatim>\<open>Reflect\<close>,
  as a browser's global has them; beside these, one has the property that a top-level
  \<^verbatim>\<open>var x = 1\<close> creates (writable, not configurable), one a configurable \<open>x\<close> and the
  \<^verbatim>\<open>window\<close> property of a browser's global, one a configurable \<open>x\<close> that is
  read-only, one what an assignment \<^verbatim>\<open>x = 1\<close> creates. \<open>always_false\<close> is the guest's
  function \<^verbatim>\<open>() => false\<close>.
\<close>

definition builtins :: js_object where
  "builtins =
     [KString ''Object'' \<mapsto>
        \<lparr>pvalue = VBuiltinObject, writable = True, enumerable = False, configurable = True\<rparr>,
      KString ''Reflect'' \<mapsto>
        \<lparr>pvalue = VBuiltinReflect, writable = True, enumerable = False, configurable = True\<rparr>]"


definition page_global :: js_object where
  "page_global =
     builtins(KString ''x'' \<mapsto>
       \<lparr>pvalue = VNum 1, writable = True, enumerable = True, configurable = True\<rparr>,
      KString ''window'' \<mapsto>
       \<lparr>pvalue = VRawWindow, writable = False, enumerable = True, configurable = False\<rparr>)"


definition plain_global :: js_object where
  "plain_global =
     builtins(KString ''x'' \<mapsto>
       \<lparr>pvalue = VNum 1, writable = True, enumerable = True, configurable = True\<rparr>)"

definition always_false :: js_value where
  "always_false = VFunction 0 False False (FnBody [] (Inr False))"

section \<open>The shared prototype patches (dynamicAppend/common, forStrictSandbox, forLooseSandbox)\<close>

text \<open>
  A function stored in a prototype slot is the browser's native one or an overwriting
  function that closes over the function it replaced (its \<^verbatim>\<open>rawDOMAppendOrInsertBefore\<close>
  or \<^verbatim>\<open>rawRemoveChild\<close>). The overwriting functions are the ones that carry
  \<^verbatim>\<open>overwrittenSymbol\<close>.
\<close>

datatype proto_fn = Native | Overwritten proto_fn

fun overwritten :: "proto_fn \<Rightarrow> bool" where
  "overwritten Native = False"
| "overwritten (Overwritten raw) = True"

text \<open>
  The five slots the patcher writes: \<^verbatim>\<open>appendChild\<close>, \<^verbatim>\<open>insertBefore\<close> and
  \<^verbatim>\<open>removeChild\<close> of \<^verbatim>\<open>HTMLHeadElement.prototype\<close>, \<^verbatim>\<open>appendChild\<close> and \<^verbatim>\<open>removeChild\<close>
  of \<^verbatim>\<open>HTMLBodyElement.prototype\<close>.
\<close>

record html_prototypes =
  headAppendChild :: proto_fn
  headInsertBefore :: proto_fn
  headRemoveChild :: proto_fn
  bodyAppendChild :: proto_fn
  bodyRemoveChild :: proto_fn

text \<open>What the returned \<^verbatim>\<open>unpatch\<close> closure has captured.\<close>

record unpatch_closure =
  rawHeadAppendChild :: proto_fn
  rawBodyAppendChild :: proto_fn
  rawHeadInsertBefore :: proto_fn
  rawHeadRemoveChild :: proto_fn
  rawBodyRemoveChild :: proto_fn

definition patchHTMLDynamicAppendPrototypeFunctions ::
  "html_prototypes \<Rightarrow> unpatch_closure \<times> html_prototypes" where
  "patchHTMLDynamicAppendPrototypeFunctions p =
     (let rawHeadAppend = headAppendChild p;
          rawBodyAppend = bodyAppendChild p;
          rawHeadInsert = headInsertBefore p;
          p1 = (if \<not> overwritten rawHeadAppend \<and> \<not> overwritten rawBodyAppend \<and>
                   \<not> overwritten rawHeadInsert
                then p\<lparr>headAppendChild := Overwritten rawHeadAppend,
                       bodyAppendChild := Overwritten rawBodyAppend,
                       headInsertBefore := Overwritten rawHeadInsert\<rparr>
                else p);
          rawHeadRemove = headRemoveChild p1;
          rawBodyRemove = bodyRemoveChild p1;
          p2 = (if \<not> overwritten rawHeadRemove \<and> \<not> overwritten rawBodyRemove
                then p1\<lparr>headRemoveChild := Overwritten rawHeadRemove,
                        bodyRemoveChild := Overwritten rawBodyRemove\<rparr>
                else p1)
      in (\<lparr>rawHeadAppendChild = rawHeadAppend, rawBodyAppendChild = rawBodyAppend,
           rawHeadInsertBefore = rawHeadInsert, rawHeadRemoveChild = rawHeadRemove,
           rawBodyRemoveChild = rawBodyRemove\<rparr>, p2))"

definition unpatch :: "unpatch_closure \<Rightarrow> html_prototypes \<Rightarrow> html_prototypes" where
  "unpatch u p =
     p\<lparr>headAppendChild := rawHeadAppendChild u,
       headRemoveChild := rawHeadRemoveChild u,
       bodyAppendChild := rawBodyAppendChild u,
       bodyRemoveChild := rawBodyRemoveChild u,
       headInsertBefore := rawHeadInsertBefore u\<rparr>"

text \<open>The process-wide state the patchers of all applications share.\<close>

record patch_world =
  prototypes :: html_prototypes
  appsCounterMap :: apps_counter_map

text \<open>
  The \<^verbatim>\<open>free\<close> closure that \<^verbatim>\<open>patchStrictSandbox\<close> and \<^verbatim>\<open>patchLooseSandbox\<close> return:
  the application name, the \<^verbatim>\<open>mounting\<close> flag and the \<^verbatim>\<open>unpatch\<close> closure it calls.
\<close>

record freer =
  freer_appName :: string
  freer_mounting :: bool
  freer_unpatch :: unpatch_closure

text \<open>
  \<^verbatim>\<open>patchStrictSandbox\<close>, as far as the prototypes and the counters go. (Its
  \<^verbatim>\<open>patchDocument\<close> and the container configuration touch neither.)
\<close>

definition patchStrictSandbox :: "string \<Rightarrow> bool \<Rightarrow> patch_world \<Rightarrow> freer \<times> patch_world" where
  "patchStrictSandbox appName mounting w =
     (let (unpatchDynamicAppendPrototypeFunctions, p) =
            patchHTMLDynamicAppendPrototypeFunctions (prototypes w);
          c1 = (if \<not> mounting then calcAppCount appName Increase Bootstrapping (appsCounterMap w)
                else appsCounterMap w);
          c2 = (if mounting then calcAppCount appName Increase Mounting c1 else c1)
      in (\<lparr>freer_appName = appName, freer_mounting = mounting,
           freer_unpatch = unpatchDynamicAppendPrototypeFunctions\<rparr>,
          w\<lparr>prototypes := p, appsCounterMap := c2\<rparr>))"

text \<open>\<^verbatim>\<open>patchLooseSandbox\<close> does the same to the prototypes and the counters.\<close>

definition patchLooseSandbox :: "string \<Rightarrow> bool \<Rightarrow> patch_world \<Rightarrow> freer \<times> patch_world" where
  "patchLooseSandbox appName mounting w =
     (let (unpatchDynamicAppendPrototypeFunctions, p) =
            patchHTMLDynamicAppendPrototypeFunctions (prototypes w);
          c1 = (if \<not> mounting then calcAppCount appName Increase Bootstrapping (appsCounterMap w)
                else appsCounterMap w);
          c2 = (if mounting then calcAppCount appName Increase Mounting c1 else c1)
      in (\<lparr>freer_appName = appName, freer_mounting = mounting,
           freer_unpatch = unpatchDynamicAppendPrototypeFunctions\<rparr>,
          w\<lparr>prototypes := p, appsCounterMap := c2\<rparr>))"

text \<open>
  \<^verbatim>\<open>free()\<close>: the decrement, then the release of the prototypes when every counter of
  every application is zero.
\<close>

definition free :: "freer \<Rightarrow> patch_world \<Rightarrow> patch_world" where
  "free f w =
     (let c1 = (if \<not> freer_mounting f
                then calcAppCount (freer_appName f) Decrease Bootstrapping (appsCounterMap w)
                else appsCounterMap w);
          c2 = (if freer_mounting f then calcAppCount (freer_appName f) Decrease Mounting c1
                else c1);
          w1 = w\<lparr>appsCounterMap := c2\<rparr>
      in if isAllAppsUnmounted c2
         then w1\<lparr>prototypes := unpatch (freer_unpatch f) (prototypes w1)\<rparr>
         else w1)"

text \<open>
  What the applications of a page do to the shared state: each call of a patcher adds
  its \<^verbatim>\<open>free\<close> closure to the closures made so far, and \<open>Free i\<close> calls the \<open>i\<close>-th of
  them (a closure may be called again: the bootstrapping one is called at every unmount).
\<close>

datatype patch_action =
    PatchStrict string bool
  | PatchLoose string bool
  | Free nat

fun patch_step :: "patch_action \<Rightarrow> patch_world \<times> freer list \<Rightarrow> patch_world \<times> freer list" where
  "patch_step (PatchStrict appName mounting) (w, fs) =
     (let (f, w') = patchStrictSandbox appName mounting w in (w', fs @ [f]))"
| "patch_step (PatchLoose appName mounting) (w, fs) =
     (let (f, w') = patchLooseSandbox appName mounting w in (w', fs @ [f]))"
| "patch_step (Free i) (w, fs) = (if i < length fs then (free (fs ! i) w, fs) else (w, fs))"

fun patch_run :: "patch_action list \<Rightarrow> patch_world \<times> freer list \<Rightarrow> patch_world \<times> freer list" where
  "patch_run [] st = st"
| "patch_run (a # as) st = patch_run as (patch_step a st)"

text \<open>The page before any patcher ran.\<close>

definition native_world :: patch_world where
  "native_world =
     \<lparr>prototypes = \<lparr>headAppendChild = Native, headInsertBefore = Native,
                     headRemoveChild = Native, bodyAppendChild = Native,
                     bodyRemoveChild = Native\<rparr>,
      appsCounterMap = []\<rparr>"

text \<open>The five slots after one installation of the patch.\<close>

definition patched_once :: html_prototypes where
  "patched_once =
     \<lparr>headAppendChild = Overwritten Native, headInsertBefore = Overwritten Native,
      headRemoveChild = Overwritten Native, bodyAppendChild = Overwritten Native,
      bodyRemoveChild = Overwritten Native\<rparr>"

fun is_patch :: "patch_action \<Rightarrow> bool" where
  "is_patch (Free i) = False"
| "is_patch a = True"

text \<open>At most one layer of patch: the native function, or one overwriting function around it.\<close>

definition one_layer :: "proto_fn \<Rightarrow> bool" where
  "one_layer f = (f = Native \<or> f = Overwritten Native)"

definition slots_one_layer :: "html_prototypes \<Rightarrow> bool" where
  "slots_one_layer p =
     (one_layer (headAppendChild p) \<and> one_layer (headInsertBefore p) \<and>
      one_layer (headRemoveChild p) \<and> one_layer (bodyAppendChild p) \<and>
      one_layer (bodyRemoveChild p))"

definition closure_one_layer :: "unpatch_closure \<Rightarrow> bool" where
  "closure_one_layer u =
     (one_layer (rawHeadAppendChild u) \<and> one_layer (rawHeadInsertBefore u) \<and>
      one_layer (rawHeadRemoveChild u) \<and> one_layer (rawBodyAppendChild u) \<and>
      one_layer (rawBodyRemoveChild u))"

text \<open>The invariant: the slots, and what every \<^verbatim>\<open>unpatch\<close> closure would put back.\<close>

definition layers_ok :: "patch_world \<times> freer list \<Rightarrow> bool" where
  "layers_ok st \<longleftrightarrow>
     slots_one_layer (prototypes (fst st)) \<and>
     (\<forall>f\<in>set (snd st). closure_one_layer (freer_unpatch f))"

section \<open>The lifecycle orchestrator (sandbox/index.ts, sandbox/patchers/index.ts)\<close>

text \<open>
  \<^verbatim>\<open>mount\<close> and \<^verbatim>\<open>unmount\<close> are \<^verbatim>\<open>async\<close> functions without an \<^verbatim>\<open>await\<close>: each runs
  to its end in one go. What they do to the page is done by the sandbox and by the
  patchers, whose closures the orchestrator only calls; the model records each such call,
  in order, in a trace.
\<close>

datatype sandbox_type = LegacyProxy | Proxy | Snapshot

text \<open>A patcher, with the \<^verbatim>\<open>mounting\<close> argument the dynamic-append patchers are given.\<close>

datatype patcher =
    PatchInterval
  | PatchWindowListener
  | PatchHistoryListener
  | PatchLooseSandbox bool
  | PatchStrictSandbox bool

text \<open>
  A \<^verbatim>\<open>Freer\<close> is the closure a patcher returned, a \<^verbatim>\<open>Rebuilder\<close> the closure a
  \<^verbatim>\<open>Freer\<close> returned.
\<close>

datatype side_effect_freer = FreerOf patcher

datatype side_effect_rebuilder = RebuilderOf side_effect_freer

datatype effect =
    SandboxActive
  | SandboxInactive
  | Patched patcher
  | Freed side_effect_freer
  | Rebuilt side_effect_rebuilder

record sandbox_container =
  instance_type :: sandbox_type
  bootstrappingFreers :: "side_effect_freer list"
  mountingFreers :: "side_effect_freer list"
  sideEffectsRebuilders :: "side_effect_rebuilder list"
  trace :: "effect list"

definition emit :: "effect \<Rightarrow> sandbox_container \<Rightarrow> sandbox_container" where
  "emit e c = c\<lparr>trace := trace c @ [e]\<rparr>"

text \<open>\<^verbatim>\<open>patchers.map((patch) => patch())\<close>: each patcher installs its patch and returns its freer.\<close>

fun call_patchers ::
  "patcher list \<Rightarrow> sandbox_container \<Rightarrow> side_effect_freer list \<times> sandbox_container" where
  "call_patchers [] c = ([], c)"
| "call_patchers (p # ps) c =
     (let c1 = emit (Patched p) c;
          (fs, c2) = call_patchers ps c1
      in (FreerOf p # fs, c2))"

definition basePatchers :: "patcher list" where
  "basePatchers = [PatchInterval, PatchWindowListener, PatchHistoryListener]"

fun mountingPatchers :: "sandbox_type \<Rightarrow> patcher list" where
  "mountingPatchers LegacyProxy = basePatchers @ [PatchLooseSandbox True]"
| "mountingPatchers Proxy = basePatchers @ [PatchStrictSandbox True]"
| "mountingPatchers Snapshot = basePatchers @ [PatchLooseSandbox True]"

fun bootstrappingPatchers :: "sandbox_type \<Rightarrow> patcher list" where
  "bootstrappingPatchers LegacyProxy = [PatchLooseSandbox False]"
| "bootstrappingPatchers Proxy = [PatchStrictSandbox False]"
| "bootstrappingPatchers Snapshot = [PatchLooseSandbox False]"

definition patchAtMounting ::
  "sandbox_container \<Rightarrow> side_effect_freer list \<times> sandbox_container" where
  "patchAtMounting c = call_patchers (mountingPatchers (instance_type c)) c"

definition patchAtBootstrapping ::
  "sandbox_container \<Rightarrow> side_effect_freer list \<times> sandbox_container" where
  "patchAtBootstrapping c = call_patchers (bootstrappingPatchers (instance_type c)) c"

text \<open>\<^verbatim>\<open>rebuilders.forEach((rebuild) => rebuild())\<close>\<close>

fun call_rebuilders :: "side_effect_rebuilder list \<Rightarrow> sandbox_container \<Rightarrow> sandbox_container" where
  "call_rebuilders [] c = c"
| "call_rebuilders (r # rs) c = call_rebuilders rs (emit (Rebuilt r) c)"

text \<open>\<^verbatim>\<open>freers.map((free) => free())\<close>\<close>

fun call_freers ::
  "side_effect_freer list \<Rightarrow> sandbox_container \<Rightarrow> side_effect_rebuilder list \<times> sandbox_container" where
  "call_freers [] c = ([], c)"
| "call_freers (f # fs) c =
     (let c1 = emit (Freed f) c;
          (rs, c2) = call_freers fs c1
      in (RebuilderOf f # rs, c2))"

text \<open>
  \<^verbatim>\<open>createSandboxContainer\<close>: the choice of the sandbox and the patches of bootstrap time.
  \<open>hasProxy\<close> is \<^verbatim>\<open>window.Proxy\<close>.
\<close>

definition createSandboxContainer :: "bool \<Rightarrow> bool \<Rightarrow> sandbox_container" where
  "createSandboxContainer hasProxy useLooseSandbox =
     (let ty = (if hasProxy then (if useLooseSandbox then LegacyProxy else Proxy) else Snapshot);
          c0 = \<lparr>instance_type = ty, bootstrappingFreers = [], mountingFreers = [],
                sideEffectsRebuilders = [], trace = []\<rparr>;
          (fs, c1) = patchAtBootstrapping c0
      in c1\<lparr>bootstrappingFreers := fs\<rparr>)"

definition mount :: "sandbox_container \<Rightarrow> sandbox_container" where
  "mount c =
     (let c1 = emit SandboxActive c;
          sideEffectsRebuildersAtBootstrapping =
            take (length (bootstrappingFreers c1)) (sideEffectsRebuilders c1);
          sideEffectsRebuildersAtMounting =
            drop (length (bootstrappingFreers c1)) (sideEffectsRebuilders c1);
          c2 = call_rebuilders sideEffectsRebuildersAtBootstrapping c1;
          (fs, c3) = patchAtMounting c2;
          c4 = c3\<lparr>mountingFreers := fs\<rparr>;
          c5 = call_rebuilders sideEffectsRebuildersAtMounting c4
      in c5\<lparr>sideEffectsRebuilders := []\<rparr>)"

definition unmount :: "sandbox_container \<Rightarrow> sandbox_container" where
  "unmount c =
     (let (rs, c1) = call_freers (bootstrappingFreers c @ mountingFreers c) c;
          c2 = c1\<lparr>sideEffectsRebuilders := rs\<rparr>
      in emit SandboxInactive c2)"

section \<open>The window listener patcher (sandbox/patchers/windowListener.ts)\<close>

text \<open>
  An options object of \<^verbatim>\<open>addEventListener\<close>: each field may be absent
  (\<^verbatim>\<open>undefined\<close>). The third argument of \<^verbatim>\<open>addEventListener\<close> is absent, \<^verbatim>\<open>null\<close>, a
  boolean or such an object.
\<close>

record listener_options =
  opt_capture :: "bool option"
  opt_once :: "bool option"
  opt_passive :: "bool option"

datatype raw_options = RawUndefined | RawNull | RawBool bool | RawObject listener_options

definition DEFAULT_OPTIONS :: listener_options where
  "DEFAULT_OPTIONS = \<lparr>opt_capture = Some False, opt_once = Some False, opt_passive = Some False\<rparr>"

fun normalizeOptions :: "raw_options \<Rightarrow> listener_options" where
  "normalizeOptions (RawObject opts) = opts"
| "normalizeOptions RawNull = DEFAULT_OPTIONS"
| "normalizeOptions (RawBool b) = \<lparr>opt_capture = Some b, opt_once = Some False, opt_passive = Some False\<rparr>"
| "normalizeOptions RawUndefined = \<lparr>opt_capture = Some False, opt_once = Some False, opt_passive = Some False\<rparr>"

text \<open>
  A listener is a function of the guest, known by its identity, or the closure that
  \<^verbatim>\<open>addCacheListener\<close> makes for a \<^verbatim>\<open>once\<close> registration, which closes over the event
  type, the guest's listener and the options.
\<close>

datatype listener_fn = Listener nat | OnceWrapper string listener_fn listener_options

record ListenerMapObject =
  listener :: listener_fn
  options :: listener_options
  rawListener :: listener_fn

type_synonym listener_map = "(string \<times> ListenerMapObject list) list"

text \<open>\<^verbatim>\<open>listeners.findIndex(...)\<close>: the index of the first match, if there is one.\<close>

fun findListenerIndex :: "ListenerMapObject list \<Rightarrow> listener_fn \<Rightarrow> listener_options \<Rightarrow> nat option" where
  "findListenerIndex [] raw opts = None"
| "findListenerIndex (item # items) raw opts =
     (if rawListener item = raw \<and> opt_capture (options item) = opt_capture opts then Some 0
      else map_option Suc (findListenerIndex items raw opts))"

text \<open>\<^verbatim>\<open>listenerMap.get(type) || []\<close>\<close>

definition cached_listeners :: "listener_map \<Rightarrow> string \<Rightarrow> ListenerMapObject list" where
  "cached_listeners m ty = (case map_of m ty of None \<Rightarrow> [] | Some ls \<Rightarrow> ls)"

text \<open>
  \<^verbatim>\<open>removeCacheListener\<close> splices the array that the map holds, in place: the map then
  holds the shortened array under the same key.
\<close>

definition removeCacheListener ::
  "listener_map \<Rightarrow> string \<Rightarrow> listener_fn \<Rightarrow> raw_options \<Rightarrow> ListenerMapObject \<times> listener_map" where
  "removeCacheListener m ty raw rawOptions =
     (let opts = normalizeOptions rawOptions;
          cachedTypeListeners = cached_listeners m ty
      in case findListenerIndex cachedTypeListeners raw opts of
           Some i \<Rightarrow>
             (cachedTypeListeners ! i,
              AList.update ty (take i cachedTypeListeners @ drop (Suc i) cachedTypeListeners) m)
         | None \<Rightarrow> (\<lparr>listener = raw, options = opts, rawListener = raw\<rparr>, m))"

definition addCacheListener ::
  "listener_map \<Rightarrow> string \<Rightarrow> listener_fn \<Rightarrow> raw_options \<Rightarrow> ListenerMapObject option \<times> listener_map" where
  "addCacheListener m ty raw rawOptions =
     (let opts = normalizeOptions rawOptions;
          cachedTypeListeners = cached_listeners m ty
      in case findListenerIndex cachedTypeListeners raw opts of
           Some i \<Rightarrow> (None, m)
         | None \<Rightarrow>
             (let l = (if opt_once opts = Some True then OnceWrapper ty raw opts else raw);
                  cacheListener = \<lparr>listener = l, options = opts, rawListener = raw\<rparr>
              in (Some cacheListener, AList.update ty (cachedTypeListeners @ [cacheListener]) m)))"

text \<open>
  The real global: the listeners the browser holds, each with its type, its callback and
  its capture flag, and the calls of the raw \<^verbatim>\<open>addEventListener\<close> and
  \<^verbatim>\<open>removeEventListener\<close> made so far. The browser ignores a registration whose type,
  callback and capture flag it already holds.
\<close>

datatype raw_call =
    RawAdd string listener_fn listener_options
  | RawRemove string listener_fn listener_options

record real_window =
  registered :: "(string \<times> listener_fn \<times> bool) list"
  raw_calls :: "raw_call list"

definition capture_flag :: "listener_options \<Rightarrow> bool" where
  "capture_flag opts = (opt_capture opts = Some True)"

definition rawAddEventListener ::
  "string \<Rightarrow> listener_fn \<Rightarrow> listener_options \<Rightarrow> real_window \<Rightarrow> real_window" where
  "rawAddEventListener ty l opts w =
     w\<lparr>registered :=
         (if (ty, l, capture_flag opts) \<in> set (registered w) then registered w
          else registered w @ [(ty, l, capture_flag opts)]),
       raw_calls := raw_calls w @ [RawAdd ty l opts]\<rparr>"

definition rawRemoveEventListener ::
  "string \<Rightarrow> listener_fn \<Rightarrow> listener_options \<Rightarrow> real_window \<Rightarrow> real_window" where
  "rawRemoveEventListener ty l opts w =
     w\<lparr>registered := filter (\<lambda>e. e \<noteq> (ty, l, capture_flag opts)) (registered w),
       raw_calls := raw_calls w @ [RawRemove ty l opts]\<rparr>"

text \<open>
  The state of one call of \<^verbatim>\<open>patch(global)\<close>: its \<^verbatim>\<open>listenerMap\<close>, the real global, and
  whether \<^verbatim>\<open>global.addEventListener\<close> and \<^verbatim>\<open>global.removeEventListener\<close> are the
  patched functions.
\<close>

record listener_patch =
  listenerMap :: listener_map
  real_global :: real_window
  patched :: bool

definition patch_window_listener :: "real_window \<Rightarrow> listener_patch" where
  "patch_window_listener w = \<lparr>listenerMap = [], real_global = w, patched = True\<rparr>"

text \<open>\<^verbatim>\<open>global.addEventListener\<close> and \<^verbatim>\<open>global.removeEventListener\<close>, as they stand.\<close>

definition addEventListener ::
  "string \<Rightarrow> listener_fn \<Rightarrow> raw_options \<Rightarrow> listener_patch \<Rightarrow> listener_patch" where
  "addEventListener ty raw rawOptions st =
     (if patched st then
        (case addCacheListener (listenerMap st) ty raw rawOptions of
           (None, m) \<Rightarrow> st\<lparr>listenerMap := m\<rparr>
         | (Some addListener, m) \<Rightarrow>
             st\<lparr>listenerMap := m,
                real_global := rawAddEventListener ty (listener addListener)
                                 (options addListener) (real_global st)\<rparr>)
      else st\<lparr>real_global := rawAddEventListener ty raw (normalizeOptions rawOptions)
                                (real_global st)\<rparr>)"

definition removeEventListener ::
  "string \<Rightarrow> listener_fn \<Rightarrow> raw_options \<Rightarrow> listener_patch \<Rightarrow> listener_patch" where
  "removeEventListener ty raw rawOptions st =
     (if patched st then
        (case removeCacheListener (listenerMap st) ty raw rawOptions of
           (removed, m) \<Rightarrow>
             st\<lparr>listenerMap := m,
                real_global := rawRemoveEventListener ty (listener removed) (options removed)
                                 (real_global st)\<rparr>)
      else st\<lparr>real_global := rawRemoveEventListener ty raw (normalizeOptions rawOptions)
                                (real_global st)\<rparr>)"

text \<open>
  \<^verbatim>\<open>listeners.forEach(...)\<close> in \<^verbatim>\<open>free\<close>. \<^verbatim>\<open>Array.prototype.forEach\<close> reads the length
  once and then visits the indices \<open>0, 1, ...\<close> below it, skipping an index the array no
  longer has. The array it walks is the one the map holds, which the callback's
  \<^verbatim>\<open>removeEventListener\<close> splices: \<open>n\<close> is the number of indices still to visit, \<open>k\<close>
  the index to visit next.
\<close>

fun forEach_listeners :: "nat \<Rightarrow> nat \<Rightarrow> string \<Rightarrow> listener_patch \<Rightarrow> listener_patch" where
  "forEach_listeners 0 k ty st = st"
| "forEach_listeners (Suc n) k ty st =
     (let listeners = cached_listeners (listenerMap st) ty;
          st' = (if k < length listeners
                 then removeEventListener ty (rawListener (listeners ! k))
                        (RawObject (options (listeners ! k))) st
                 else st)
      in forEach_listeners n (Suc k) ty st')"

text \<open>\<^verbatim>\<open>listenerMap.forEach((listeners, type) => ...)\<close>: the keys in insertion order.\<close>

fun forEach_types :: "string list \<Rightarrow> listener_patch \<Rightarrow> listener_patch" where
  "forEach_types [] st = st"
| "forEach_types (ty # tys) st =
     forEach_types tys
       (forEach_listeners (length (cached_listeners (listenerMap st) ty)) 0 ty st)"

definition free_window_listener :: "listener_patch \<Rightarrow> listener_patch" where
  "free_window_listener st =
     (let st1 = forEach_types (map fst (listenerMap st)) st
      in st1\<lparr>listenerMap := [], patched := False\<rparr>)"

text \<open>A page with no listener on its global.\<close>

definition quiet_window :: real_window where
  "quiet_window = \<lparr>registered = [], raw_calls = []\<rparr>"

section \<open>JavaScript regular expressions, as far as css.ts uses them\<close>

text \<open>
  The regular expressions of \<^verbatim>\<open>ruleStyle\<close> are written as syntax trees and run by a
  backtracking matcher that tries the alternatives in ECMAScript's order: the left branch
  of \<open>|\<close> first, and as many iterations of a greedy quantifier as possible first. Strings
  are sequences of ASCII characters.
\<close>

datatype class_item = CChar char | CWord | CSpace | CNonSpace

definition is_word_char :: "char \<Rightarrow> bool" where
  "is_word_char c =
     (let n = (of_char c :: nat)
      in (48 \<le> n \<and> n \<le> 57) \<or> (65 \<le> n \<and> n \<le> 90) \<or> n = 95 \<or> (97 \<le> n \<and> n \<le> 122))"

definition is_space_char :: "char \<Rightarrow> bool" where
  "is_space_char c = (let n = (of_char c :: nat) in n = 32 \<or> (9 \<le> n \<and> n \<le> 13))"

definition is_line_terminator :: "char \<Rightarrow> bool" where
  "is_line_terminator c = (let n = (of_char c :: nat) in n = 10 \<or> n = 13)"

fun class_item_matches :: "class_item \<Rightarrow> char \<Rightarrow> bool" where
  "class_item_matches (CChar d) c = (c = d)"
| "class_item_matches CWord c = is_word_char c"
| "class_item_matches CSpace c = is_space_char c"
| "class_item_matches CNonSpace c = (\<not> is_space_char c)"

text \<open>
  \<open>Class negated items\<close> is \<^verbatim>\<open>[...]\<close> or \<^verbatim>\<open>[^...]\<close>, \<open>Bol\<close> is \<^verbatim>\<open>^\<close>, \<open>Group n r\<close>
  the \<open>n\<close>-th capturing group.
\<close>

datatype regex =
    Eps
  | Lit char
  | Class bool "class_item list"
  | Bol
  | Seq regex regex
  | Alt regex regex
  | Star regex
  | Plus regex
  | Opt regex
  | Group nat regex

text \<open>A literal string.\<close>

fun lits :: "string \<Rightarrow> regex" where
  "lits [] = Eps"
| "lits [c] = Lit c"
| "lits (c # cs) = Seq (Lit c) (lits cs)"

text \<open>
  A state of the matcher: the character before the current position (\<open>None\<close> at the start
  of the string), the rest of the string, and the captures made so far.
\<close>

type_synonym captures = "(nat \<times> string) list"

type_synonym mstate = "char option \<times> string \<times> captures"

definition rest_of :: "mstate \<Rightarrow> string" where
  "rest_of st = fst (snd st)"

text \<open>
  The iterations of a greedy quantifier from a state, longest first. An iteration that
  consumes nothing is not repeated.
\<close>

function star_iter :: "(mstate \<Rightarrow> mstate list) \<Rightarrow> mstate \<Rightarrow> mstate list" where
  "star_iter f st =
     concat (map (\<lambda>st'. if length (rest_of st') < length (rest_of st) then star_iter f st' else [])
               (f st)) @ [st]"
  by pat_completeness auto
termination
  by (relation "measure (\<lambda>(f, st). length (rest_of st))") auto

definition set_capture :: "nat \<Rightarrow> mstate \<Rightarrow> mstate \<Rightarrow> mstate" where
  "set_capture n st st' =
     (case st' of (prev, rest, caps) \<Rightarrow>
        (prev, rest,
         AList.update n (take (length (rest_of st) - length rest) (rest_of st)) caps))"

text \<open>
  The states in which a match of the expression from a state can end, in the order the
  backtracking tries them. \<open>ml\<close> is the \<^verbatim>\<open>m\<close> flag.
\<close>

primrec ends :: "bool \<Rightarrow> regex \<Rightarrow> mstate \<Rightarrow> mstate list" where
  "ends ml Eps st = [st]"
| "ends ml (Lit c) st =
     (case st of (prev, rest, caps) \<Rightarrow>
        (case rest of [] \<Rightarrow> [] | x # xs \<Rightarrow> if x = c then [(Some x, xs, caps)] else []))"
| "ends ml (Class negated items) st =
     (case st of (prev, rest, caps) \<Rightarrow>
        (case rest of
           [] \<Rightarrow> []
         | x # xs \<Rightarrow>
             if list_ex (\<lambda>i. class_item_matches i x) items \<noteq> negated
             then [(Some x, xs, caps)] else []))"
| "ends ml Bol st =
     (case st of (prev, rest, caps) \<Rightarrow>
        (case prev of
           None \<Rightarrow> [st]
         | Some c \<Rightarrow> if ml \<and> is_line_terminator c then [st] else []))"
| "ends ml (Seq a b) st = concat (map (ends ml b) (ends ml a st))"
| "ends ml (Alt a b) st = ends ml a st @ ends ml b st"
| "ends ml (Star a) st = star_iter (ends ml a) st"
| "ends ml (Plus a) st = concat (map (star_iter (ends ml a)) (ends ml a st))"
| "ends ml (Opt a) st = ends ml a st @ [st]"
| "ends ml (Group n a) st = map (set_capture n st) (ends ml a st)"

text \<open>
  The leftmost match in \<open>s\<close>, which follows the character \<open>prev\<close>: its offset in \<open>s\<close>,
  the matched text and the captures.
\<close>

fun find_match :: "bool \<Rightarrow> regex \<Rightarrow> char option \<Rightarrow> string \<Rightarrow> (nat \<times> string \<times> captures) option" where
  "find_match ml r prev s =
     (case ends ml r (prev, s, []) of
        st # sts \<Rightarrow> Some (0, take (length s - length (rest_of st)) s, snd (snd st))
      | [] \<Rightarrow>
          (case s of
             [] \<Rightarrow> None
           | x # xs \<Rightarrow>
               map_option (\<lambda>(i, m, caps). (Suc i, m, caps)) (find_match ml r (Some x) xs)))"

record js_regexp =
  re_pattern :: regex
  re_global :: bool
  re_multiline :: bool

text \<open>
  \<^verbatim>\<open>re.test(s)\<close> with \<^verbatim>\<open>lastIndex\<close> 0. Every regular expression of \<^verbatim>\<open>ruleStyle\<close> is
  created by the call, and each \<^verbatim>\<open>test\<close> of a global one is either its first use or
  follows a \<^verbatim>\<open>replace\<close> with it or a failed \<^verbatim>\<open>test\<close>, both of which leave
  \<^verbatim>\<open>lastIndex\<close> at 0.
\<close>

definition regexp_test :: "js_regexp \<Rightarrow> string \<Rightarrow> bool" where
  "regexp_test re s = (find_match (re_multiline re) (re_pattern re) None s \<noteq> None)"

text \<open>The group \<open>n\<close> of a match; a group that took no part is the empty string here.\<close>

definition capture_of :: "captures \<Rightarrow> nat \<Rightarrow> string" where
  "capture_of caps n = (case map_of caps n of None \<Rightarrow> [] | Some t \<Rightarrow> t)"

text \<open>
  \<^verbatim>\<open>s.replace(re, f)\<close> for a replacer function \<open>f\<close> of the match and its captures. With
  the \<^verbatim>\<open>g\<close> flag every match is replaced, the search going on behind each match (one
  character further behind an empty one).
\<close>

definition last_char :: "char option \<Rightarrow> string \<Rightarrow> char option" where
  "last_char prev t = (if t = [] then prev else Some (last t))"

function replace_all ::
  "bool \<Rightarrow> regex \<Rightarrow> (string \<Rightarrow> captures \<Rightarrow> string) \<Rightarrow> char option \<Rightarrow> string \<Rightarrow> string" where
  "replace_all ml r f prev s =
     (case find_match ml r prev s of
        None \<Rightarrow> s
      | Some (i, m, caps) \<Rightarrow>
          (let out = take i s @ f m caps
           in if m = [] then
                (case drop i s of
                   [] \<Rightarrow> out
                 | x # xs \<Rightarrow> out @ x # replace_all ml r f (Some x) xs)
              else if s = [] then out
              else out @ replace_all ml r f (last_char prev (take (i + length m) s))
                           (drop (i + length m) s)))"
  by pat_completeness auto
termination
proof (relation "measure (\<lambda>(ml, r, f, prev, s). length s)", goal_cases)
  case 1
  show ?case by simp
next
  case (2 ml r f prev s x2 i y m caps out x xs)
  have "length (drop i s) \<le> length s" by simp
  with 2 show ?case by simp
next
  case (3 ml r f prev s x2 i y m caps out)
  then show ?case by (cases s) simp_all
qed

definition replace_first ::
  "bool \<Rightarrow> regex \<Rightarrow> (string \<Rightarrow> captures \<Rightarrow> string) \<Rightarrow> string \<Rightarrow> string" where
  "replace_first ml r f s =
     (case find_match ml r None s of
        None \<Rightarrow> s
      | Some (i, m, caps) \<Rightarrow> take i s @ f m caps @ drop (i + length m) s)"

definition js_replace :: "js_regexp \<Rightarrow> (string \<Rightarrow> captures \<Rightarrow> string) \<Rightarrow> string \<Rightarrow> string" where
  "js_replace re f s =
     (if re_global re then replace_all (re_multiline re) (re_pattern re) f None s
      else replace_first (re_multiline re) (re_pattern re) f s)"

text \<open>
  \<^verbatim>\<open>s.replace(re, text)\<close> for a replacement string: the text is put in as it is, which
  is what JavaScript does when the text has no \<^verbatim>\<open>$\<close> in it.
\<close>

definition js_replace_text :: "js_regexp \<Rightarrow> string \<Rightarrow> string \<Rightarrow> string" where
  "js_replace_text re text s = js_replace re (\<lambda>m caps. text) s"

definition trim :: "string \<Rightarrow> string" where
  "trim s = rev (dropWhile is_space_char (rev (dropWhile is_space_char s)))"

section \<open>The CSS scoping engine (sandbox/patchers/css.ts)\<close>

text \<open>
  A rule of a style sheet, as \<^verbatim>\<open>rewrite\<close> reads it: its kind (\<^verbatim>\<open>rule.type\<close> 1, 4,
  12 or another number) and the properties that \<^verbatim>\<open>ruleStyle\<close>, \<^verbatim>\<open>ruleMedia\<close> and
  \<^verbatim>\<open>ruleSupport\<close> use. \<^verbatim>\<open>cssText\<close> and \<^verbatim>\<open>conditionText\<close> are \<open>None\<close> when they are
  not a string.
\<close>

datatype css_rule =
    StyleRule string "string option"
  | MediaRule "string option" string "css_rule list"
  | SupportsRule "string option" string "css_rule list"
  | OtherRule nat "string option"

definition rootSelectorRE :: js_regexp where
  "rootSelectorRE =
     \<lparr>re_pattern =
        Group 1 (Seq (Alt (Class True [CWord, CChar CHR ''-'', CChar CHR ''.'', CChar CHR ''#'']) Bol)
                     (Group 2 (Alt (lits ''body'') (Alt (lits ''html'') (lits '':root''))))),
      re_global = True, re_multiline = True\<rparr>"

definition rootCombinationRE :: js_regexp where
  "rootCombinationRE =
     \<lparr>re_pattern =
        Group 1 (Seq (lits ''html'') (Plus (Class True [CWord, CChar CHR ''{'', CChar CHR ''['']))),
      re_global = True, re_multiline = True\<rparr>"

definition siblingSelectorRE :: js_regexp where
  "siblingSelectorRE =
     \<lparr>re_pattern =
        Seq (Group 1 (Seq (lits ''html'') (Plus (Class True [CWord, CChar CHR ''{'']))))
            (Group 2 (Alt (Lit CHR ''+'') (Lit CHR ''~''))),
      re_global = True, re_multiline = True\<rparr>"

text \<open>\<^verbatim>\<open>/^[\s\S]+{/\<close>, \<^verbatim>\<open>/(^|,\n?)([^,]+)/g\<close> and \<^verbatim>\<open>/^ */\<close>\<close>

definition selectorsRE :: js_regexp where
  "selectorsRE =
     \<lparr>re_pattern = Seq Bol (Seq (Plus (Class False [CSpace, CNonSpace])) (Lit CHR ''{'')),
      re_global = False, re_multiline = False\<rparr>"

definition selectorItemRE :: js_regexp where
  "selectorItemRE =
     \<lparr>re_pattern =
        Seq (Group 1 (Alt Bol (Seq (Lit CHR '','') (Opt (Lit (CHR 0x0A))))))
            (Group 2 (Plus (Class True [CChar CHR '','']))),
      re_global = True, re_multiline = False\<rparr>"

definition leadingSpacesRE :: js_regexp where
  "leadingSpacesRE =
     \<lparr>re_pattern = Seq Bol (Star (Lit CHR '' '')), re_global = False, re_multiline = False\<rparr>"

definition ruleStyle :: "string \<Rightarrow> string option \<Rightarrow> string \<Rightarrow> string" where
  "ruleStyle selectorText ruleCssText prefix =
     (let selector = trim selectorText;
          cssText = (case ruleCssText of Some t \<Rightarrow> t | None \<Rightarrow> [])
      in if selector = ''html'' \<or> selector = ''body'' \<or> selector = '':root''
         then js_replace_text rootSelectorRE prefix cssText
         else
           (let cssText1 =
                  (if regexp_test rootCombinationRE selectorText
                   then (if \<not> regexp_test siblingSelectorRE selectorText
                         then js_replace_text rootCombinationRE [] cssText
                         else cssText)
                   else cssText)
            in js_replace selectorsRE
                 (\<lambda>selectors caps.
                    js_replace selectorItemRE
                      (\<lambda>item caps'.
                         (let p = capture_of caps' 1;
                              s = capture_of caps' 2
                          in if regexp_test rootSelectorRE item
                             then js_replace rootSelectorRE
                                    (\<lambda>m caps''.
                                       if m \<noteq> [] \<and> (hd m = CHR '','' \<or> hd m = CHR ''('')
                                       then hd m # prefix
                                       else prefix)
                                    item
                             else p @ prefix @ '' '' @ js_replace_text leadingSpacesRE [] s))
                      selectors)
                 cssText1))"

text \<open>\<^verbatim>\<open>a || b\<close> on a string that may be undefined: \<open>b\<close> when \<open>a\<close> is undefined or empty.\<close>

definition or_else :: "string option \<Rightarrow> string \<Rightarrow> string" where
  "or_else a b = (case a of None \<Rightarrow> b | Some t \<Rightarrow> if t = [] then b else t)"

text \<open>\<^verbatim>\<open>s.split('{')[0]\<close>\<close>

definition before_brace :: "string \<Rightarrow> string" where
  "before_brace s = takeWhile (\<lambda>c. c \<noteq> CHR ''{'') s"

text \<open>
  \<^verbatim>\<open>rewrite\<close>, with \<^verbatim>\<open>ruleMedia\<close> and \<^verbatim>\<open>ruleSupport\<close>: \<open>rewrite_rule\<close> is what one
  rule adds to \<^verbatim>\<open>css\<close>.
\<close>

fun rewrite_rule :: "string \<Rightarrow> css_rule \<Rightarrow> string" where
  "rewrite_rule prefix (StyleRule selectorText cssText) = ruleStyle selectorText cssText prefix"
| "rewrite_rule prefix (MediaRule conditionText mediaText cssRules) =
     ''@media '' @ or_else conditionText mediaText @ '' {'' @
       concat (map (rewrite_rule prefix) cssRules) @ ''}''"
| "rewrite_rule prefix (SupportsRule conditionText cssText cssRules) =
     ''@supports '' @ or_else conditionText (before_brace cssText) @ '' {'' @
       concat (map (rewrite_rule prefix) cssRules) @ ''}''"
| "rewrite_rule prefix (OtherRule ty cssText) = (case cssText of Some t \<Rightarrow> t | None \<Rightarrow> [])"

definition rewrite :: "css_rule list \<Rightarrow> string \<Rightarrow> string" where
  "rewrite rules prefix = concat (map (rewrite_rule prefix) rules)"

text \<open>
  A style element: its text, whether it carries \<^verbatim>\<open>ScopedCSS.ModifiedTag\<close>, and the
  prefixes of the mutation observers that \<^verbatim>\<open>process\<close> has put on it.
\<close>

record style_node =
  textContent :: string
  modified_tag :: bool
  observers :: "string list"

text \<open>
  \<^verbatim>\<open>process\<close>. \<open>cssRules\<close> is the browser: the rules of the style sheet it makes of a
  text (\<^verbatim>\<open>sheet.cssRules\<close> of the swap node, once the text is appended to it).
\<close>

definition process ::
  "(string \<Rightarrow> css_rule list) \<Rightarrow> style_node \<Rightarrow> string \<Rightarrow> style_node" where
  "process cssRules styleNode prefix =
     (if modified_tag styleNode then styleNode
      else if textContent styleNode \<noteq> [] then
        (let rules = cssRules (textContent styleNode);
             css = rewrite rules prefix
         in styleNode\<lparr>textContent := css, modified_tag := True\<rparr>)
      else styleNode\<lparr>observers := observers styleNode @ [prefix]\<rparr>)"

text \<open>
  The callback of an observer, for one record of kind \<^verbatim>\<open>childList\<close>: the rules are now
  those of the element's own sheet.
\<close>

definition child_list_mutation ::
  "(string \<Rightarrow> css_rule list) \<Rightarrow> string \<Rightarrow> style_node \<Rightarrow> style_node" where
  "child_list_mutation cssRules prefix styleNode =
     (if modified_tag styleNode then styleNode
      else styleNode\<lparr>textContent := rewrite (cssRules (textContent styleNode)) prefix,
                     modified_tag := True\<rparr>)"

text \<open>The prefix of the examples: \<^verbatim>\<open>div[data-ns="a"]\<close>.\<close>

definition example_prefix :: string where
  "example_prefix = ''div[data-ns='' @ [CHR 0x22] @ ''a'' @ [CHR 0x22] @ '']''"

section \<open>Properties of the activation counters\<close>

lemma list_all_update:
  "list_all (\<lambda>(k, v). P v) m \<Longrightarrow> P v' \<Longrightarrow> list_all (\<lambda>(k, v). P v) (AList.update a v' m)"
  by (induction m) (auto simp: list_all_iff)

lemma list_all_map_of:
  "list_all (\<lambda>(k, v). P v) m \<Longrightarrow> map_of m a = Some v \<Longrightarrow> P v"
  by (auto simp: list_all_iff dest: map_of_SomeD)

lemma get_app_count_nonneg:
  assumes "counts_nonneg m"
  shows "0 \<le> bootstrappingPatchCount (get_app_count m a) \<and>
         0 \<le> mountingPatchCount (get_app_count m a)"
proof (cases "map_of m a")
  case None
  then show ?thesis by (simp add: get_app_count_def)
next
  case (Some c)
  from list_all_map_of [OF assms [unfolded counts_nonneg_def] Some]
  show ?thesis using Some by (simp add: get_app_count_def)
qed

lemma calcAppCount_nonneg:
  assumes "counts_nonneg m"
  shows "counts_nonneg (calcAppCount a t s m)"
proof -
  note g = get_app_count_nonneg [OF assms, of a]
  show ?thesis
    unfolding calcAppCount_def counts_nonneg_def Let_def
    by (rule list_all_update [OF assms [unfolded counts_nonneg_def]])
       (use g in \<open>cases t; cases s; simp\<close>)
qed

lemma calc_calls_nonneg: "counts_nonneg m \<Longrightarrow> counts_nonneg (calc_calls cs m)"
  by (induction cs m rule: calc_calls.induct) (simp_all add: calcAppCount_nonneg)

lemma get_app_count_update: "get_app_count (AList.update a c m) a = c"
  by (simp add: get_app_count_def update_conv')

lemma decrease_at_zero:
  "patch_count s (get_app_count m a) = 0 \<Longrightarrow>
   patch_count s (get_app_count (calcAppCount a Decrease s m) a) = 0"
  by (simp add: calcAppCount_def get_app_count_update)

text \<open>
  Claim C5. Whatever sequence of increase and decrease calls is made from the empty
  counter map, for whatever application names, no bootstrapping or mounting patch count
  of any entry, and none read for any name, is negative; and a decrease of a count that
  is zero leaves it zero.
\<close>

theorem C5_counts_never_negative:
  "counts_nonneg (calc_calls cs []) \<and>
   0 \<le> patch_count s (get_app_count (calc_calls cs []) a) \<and>
   (patch_count s (get_app_count m a) = 0 \<longrightarrow>
      patch_count s (get_app_count (calcAppCount a Decrease s m) a) = 0)"
proof -
  have nn: "counts_nonneg (calc_calls cs [])"
    by (rule calc_calls_nonneg) (simp add: counts_nonneg_def)
  from get_app_count_nonneg [OF nn, of a]
  have "0 \<le> patch_count s (get_app_count (calc_calls cs []) a)"
    by (cases s) simp_all
  with nn show ?thesis by (simp add: decrease_at_zero)
qed

theorem C5_counts_never_negative_witness:
  "counts_nonneg (calc_calls [(''app'', Decrease, Mounting), (''app'', Increase, Mounting)] []) \<and>
   patch_count Mounting
     (get_app_count (calc_calls [(''app'', Decrease, Mounting), (''app'', Increase, Mounting)] []) ''app'') = 1 \<and>
   patch_count Mounting (get_app_count [] ''app'') = 0 \<and>
   patch_count Mounting (get_app_count (calcAppCount ''app'' Decrease Mounting []) ''app'') = 0"
  using C5_counts_never_negative
    [of "[(''app'', Decrease, Mounting), (''app'', Increase, Mounting)]" Mounting "''app''" "[]"]
  by (simp add: calcAppCount_def get_app_count_def)

section \<open>Properties of the legacy sandbox\<close>

lemma js_assign_dom: "js_assign g p v = Inr g' \<Longrightarrow> dom g' = insert p (dom g)"
  by (auto simp: js_assign_def split: option.splits if_splits)

lemma validate_and_apply_dom: "validate_and_apply g p d = Some g' \<Longrightarrow> dom g' = insert p (dom g)"
  by (auto simp: validate_and_apply_def split: option.splits if_splits)

lemma js_delete_dom: "js_delete g p = Inr g' \<Longrightarrow> dom g' = dom g - {p}"
  by (auto simp: js_delete_def split: option.splits if_splits)

lemma js_assign_other: "js_assign g p v = Inr g' \<Longrightarrow> q \<noteq> p \<Longrightarrow> g' q = g q"
  by (auto simp: js_assign_def split: option.splits if_splits)

lemma validate_and_apply_other: "validate_and_apply g p d = Some g' \<Longrightarrow> q \<noteq> p \<Longrightarrow> g' q = g q"
  by (auto simp: validate_and_apply_def split: option.splits if_splits)

lemma js_delete_other: "js_delete g p = Inr g' \<Longrightarrow> q \<noteq> p \<Longrightarrow> g' q = g q"
  by (auto simp: js_delete_def split: option.splits if_splits)

text \<open>
  Whatever \<^verbatim>\<open>setWindowProp\<close> does, and whether it returns or throws, it leaves the other
  keys as they are.
\<close>

lemma setWindowProp_other_key:
  assumes "setWindowProp p v d g = (r, g')" and "q \<noteq> p"
  shows "g' q = g q"
proof (cases "v = VUndefined \<and> d")
  case True
  with assms show ?thesis
    by (auto simp: setWindowProp_def split: sum.splits dest: js_delete_other)
next
  case False
  show ?thesis
  proof (cases "object_defineProperty g p
      \<lparr>d_value = None, d_writable = Some True, d_enumerable = None, d_configurable = Some True\<rparr>")
    case (Inl e)
    with assms False show ?thesis
      by (auto simp: setWindowProp_def split: sum.splits if_splits)
  next
    case (Inr g1)
    then have g1: "g1 q = g q"
      using assms(2)
      by (auto simp: object_defineProperty_def split: option.splits
          dest: validate_and_apply_other)
    show ?thesis
    proof (cases "js_assign g1 p v")
      case (Inl e)
      with assms False Inr g1 show ?thesis
        by (auto simp: setWindowProp_def split: sum.splits if_splits)
    next
      case r2: (Inr g2)
      from js_assign_other [OF r2 assms(2)] g1 have "g2 q = g q" by simp
      with assms False Inr r2 g1 show ?thesis
        by (auto simp: setWindowProp_def split: sum.splits if_splits)
    qed
  qed
qed

lemma setWindowProp_dom_other:
  "setWindowProp p v d g = (r, g') \<Longrightarrow> dom g - {p} \<subseteq> dom g'"
  using setWindowProp_other_key [of p v d g r g'] by (auto simp: dom_def)

lemma setWindowProp_dom_keep:
  assumes "setWindowProp p v False g = (r, g')"
  shows "dom g \<subseteq> dom g'"
proof -
  have "p \<in> dom g \<Longrightarrow> p \<in> dom g'"
  proof (cases "object_defineProperty g p
      \<lparr>d_value = None, d_writable = Some True, d_enumerable = None, d_configurable = Some True\<rparr>")
    case (Inl e)
    with assms show "p \<in> dom g \<Longrightarrow> p \<in> dom g'"
      by (auto simp: setWindowProp_def split: sum.splits if_splits)
  next
    case (Inr g1)
    then have "dom g1 = insert p (dom g)"
      by (auto simp: object_defineProperty_def split: option.splits
          dest!: validate_and_apply_dom)
    with assms Inr show "p \<in> dom g \<Longrightarrow> p \<in> dom g'"
      by (auto simp: setWindowProp_def split: sum.splits if_splits dest!: js_assign_dom)
  qed
  with setWindowProp_dom_other [OF assms] show ?thesis by blast
qed

lemma forEach_restore_dom:
  "forEach_prop (\<lambda>p v. setWindowProp p v False) kvs g = (r, g') \<Longrightarrow> dom g \<subseteq> dom g'"
proof (induction kvs arbitrary: g)
  case Nil
  then show ?case by simp
next
  case (Cons kv kvs)
  obtain p v where kv: "kv = (p, v)" by (cases kv)
  obtain r1 g1 where s: "setWindowProp p v False g = (r1, g1)" by (cases "setWindowProp p v False g")
  from setWindowProp_dom_keep [OF s] have d: "dom g \<subseteq> dom g1" .
  show ?case
  proof (cases r1)
    case (Inl e)
    with Cons.prems kv s d show ?thesis by simp
  next
    case (Inr u)
    with Cons.prems kv s have "forEach_prop (\<lambda>p v. setWindowProp p v False) kvs g1 = (r, g')"
      by simp
    from Cons.IH [OF this] d show ?thesis by blast
  qed
qed

lemma forEach_delete_dom:
  "forEach_prop (\<lambda>p v. setWindowProp p VUndefined True) kvs g = (r, g') \<Longrightarrow>
   dom g - map_keys kvs \<subseteq> dom g'"
proof (induction kvs arbitrary: g)
  case Nil
  then show ?case by simp
next
  case (Cons kv kvs)
  obtain p v where kv: "kv = (p, v)" by (cases kv)
  obtain r1 g1 where s: "setWindowProp p VUndefined True g = (r1, g1)"
    by (cases "setWindowProp p VUndefined True g")
  from setWindowProp_dom_other [OF s] have d: "dom g - {p} \<subseteq> dom g1" .
  show ?case
  proof (cases r1)
    case (Inl e)
    with Cons.prems kv s d show ?thesis by (auto simp: map_keys_def)
  next
    case (Inr u)
    with Cons.prems kv s have "forEach_prop (\<lambda>p v. setWindowProp p VUndefined True) kvs g1 = (r, g')"
      by simp
    from Cons.IH [OF this] have "dom g1 - map_keys kvs \<subseteq> dom g'" .
    moreover have "map_keys (kv # kvs) = insert p (map_keys kvs)"
      by (simp add: kv map_keys_def)
    ultimately show ?thesis using d by blast
  qed
qed

lemma map_keys_update: "map_keys (AList.update p v m) = insert p (map_keys m)"
  by (simp add: map_keys_def dom_update)

text \<open>The loops of \<^verbatim>\<open>active()\<close> and \<^verbatim>\<open>inactive()\<close> leave the keys they do not visit.\<close>

lemma forEach_other_key:
  assumes "forEach_prop (\<lambda>p v. setWindowProp p (f v) d) kvs g = (r, g')"
    and "q \<notin> map_keys kvs"
  shows "g' q = g q"
  using assms
proof (induction kvs arbitrary: g)
  case Nil
  then show ?case by simp
next
  case (Cons kv kvs)
  obtain p v where kv: "kv = (p, v)" by (cases kv)
  obtain r1 g1 where s: "setWindowProp p (f v) d g = (r1, g1)"
    by (cases "setWindowProp p (f v) d g")
  from Cons.prems(2) kv have qp: "q \<noteq> p" and qk: "q \<notin> map_keys kvs"
    by (auto simp: map_keys_def)
  from setWindowProp_other_key [OF s qp] have g1: "g1 q = g q" .
  show ?case
  proof (cases r1)
    case (Inl e)
    with Cons.prems(1) kv s g1 show ?thesis by simp
  next
    case (Inr u)
    with Cons.prems(1) kv s
    have "forEach_prop (\<lambda>p v. setWindowProp p (f v) d) kvs g1 = (r, g')" by simp
    from Cons.IH [OF this qk] g1 show ?thesis by simp
  qed
qed

lemmas restore_loop_other = forEach_other_key [where f = "\<lambda>v. v" and d = False]





lemma setWindowProp_delete:
  "setWindowProp p VUndefined True g =
     (case g p of
        None \<Rightarrow> (Inr (), g)
      | Some pr \<Rightarrow> if configurable pr then (Inr (), g(p := None)) else (Inl TypeError, g))"
  by (auto simp: setWindowProp_def js_delete_def split: option.splits)




lemma delete_loop_absent:
  "forEach_prop (\<lambda>p v. setWindowProp p VUndefined True) kvs g = (r, g') \<Longrightarrow>
   g q = None \<Longrightarrow> g' q = None"
proof (induction kvs arbitrary: g)
  case Nil
  then show ?case by simp
next
  case (Cons kv kvs)
  obtain p v where kv: "kv = (p, v)" by (cases kv)
  obtain r1 g1 where s: "setWindowProp p VUndefined True g = (r1, g1)"
    by (cases "setWindowProp p VUndefined True g")
  then have g1: "g1 q = None"
    using Cons.prems(2) by (auto simp: setWindowProp_delete split: option.splits if_splits)
  show ?case
  proof (cases r1)
    case (Inl e)
    with Cons.prems(1) kv s g1 show ?thesis by simp
  next
    case (Inr u)
    with Cons.prems(1) kv s
    have "forEach_prop (\<lambda>p v. setWindowProp p VUndefined True) kvs g1 = (r, g')" by simp
    from Cons.IH [OF this g1] show ?thesis .
  qed
qed

text \<open>
  While the global has no own \<^verbatim>\<open>hasOwnProperty\<close>, the test of \<^verbatim>\<open>setTrap\<close> is the
  built-in one; and operations under other names leave it so.
\<close>

lemma call_hasOwnProperty_builtin:
  "g (KString ''hasOwnProperty'') = None \<Longrightarrow> call_hasOwnProperty g p = Inr (hasOwnProperty g p)"
  by (simp add: call_hasOwnProperty_def)

lemma setTrap_other_key:
  assumes "setTrap p v ov sync s = (r, s')" and "q \<noteq> p"
  shows "globalContext s' q = globalContext s q"
    and "q \<in> modified_keys s' \<longleftrightarrow> q \<in> modified_keys s"
    and "q \<in> current_keys s' \<longleftrightarrow> q \<in> current_keys s"
    and "q \<in> added_keys s' \<longleftrightarrow> q \<in> added_keys s"
  using assms
  by (auto simp: setTrap_def Let_def js_assign_def map_keys_update modified_keys_def
      current_keys_def added_keys_def
      split: if_splits sum.splits option.splits)

lemma builtin_in_place_setTrap:
  assumes "setTrap p v ov sync s = (r, s')" and "p \<noteq> KString ''hasOwnProperty''"
    and "builtin_in_place s"
  shows "builtin_in_place s'"
  using setTrap_other_key [OF assms(1), of "KString ''hasOwnProperty''"] assms(2,3)
  by (simp add: builtin_in_place_def)

lemma builtin_in_place_proxy_set:
  "p \<noteq> KString ''hasOwnProperty'' \<Longrightarrow> builtin_in_place s \<Longrightarrow>
   builtin_in_place (snd (proxy_set p v s))"
  using builtin_in_place_setTrap [of p v "js_get (globalContext s) p" True s]
  by (cases "proxy_set p v s") (simp add: proxy_set_def Let_def)

lemma reflect_defineProperty_other_key:
  "reflect_defineProperty g p d = (b, g') \<Longrightarrow> q \<noteq> p \<Longrightarrow> g' q = g q"
  by (auto simp: reflect_defineProperty_def validate_and_apply_def
      split: option.splits if_splits)

text \<open>
  The \<^verbatim>\<open>defineProperty\<close> handler either throws at \<^verbatim>\<open>Reflect\<close>, before anything is
  done, or defines the property and calls \<^verbatim>\<open>setTrap\<close>.
\<close>

lemma proxy_defineProperty_setTrap:
  assumes "proxy_defineProperty p d s = (r, s')"
  obtains (thrown) "s' = s"
  | (defined) b g' r1 where "reflect_defineProperty (globalContext s) p d = (b, g')"
    and "setTrap p (js_get g' p) (js_get (globalContext s) p) False
           (s\<lparr>globalContext := g'\<rparr>) = (r1, s')"
proof (cases "global_builtin (globalContext s) ''Reflect'' VBuiltinReflect")
  case (Inl e)
  with assms have "s' = s" by (simp add: proxy_defineProperty_def Let_def)
  then show thesis by (rule thrown)
next
  case (Inr u)
  obtain b g' where rd: "reflect_defineProperty (globalContext s) p d = (b, g')"
    by (cases "reflect_defineProperty (globalContext s) p d")
  obtain r1 s1 where st: "setTrap p (js_get g' p) (js_get (globalContext s) p) False
           (s\<lparr>globalContext := g'\<rparr>) = (r1, s1)"
    by (cases "setTrap p (js_get g' p) (js_get (globalContext s) p) False
           (s\<lparr>globalContext := g'\<rparr>)")
  with assms rd Inr have "s1 = s'"
    by (auto simp: proxy_defineProperty_def Let_def split: sum.splits)
  with rd st show thesis by (intro defined) auto
qed

lemma builtin_in_place_proxy_defineProperty:
  assumes "p \<noteq> KString ''hasOwnProperty''" and "builtin_in_place s"
  shows "builtin_in_place (snd (proxy_defineProperty p d s))"
proof -
  obtain r s' where pd: "proxy_defineProperty p d s = (r, s')"
    by (cases "proxy_defineProperty p d s")
  from pd show ?thesis
  proof (cases rule: proxy_defineProperty_setTrap)
    case thrown
    with pd assms(2) show ?thesis by simp
  next
    case (defined b g' r1)
    from reflect_defineProperty_other_key [OF defined(1), of "KString ''hasOwnProperty''"] assms
    have "builtin_in_place (s\<lparr>globalContext := g'\<rparr>)"
      by (simp add: builtin_in_place_def modified_keys_def current_keys_def)
    from builtin_in_place_setTrap [OF defined(2) assms(1) this] pd show ?thesis by simp
  qed
qed

lemma active_result:
  obtains "snd (active s) = s\<lparr>sandboxRunning := True\<rparr>"
  | r g' where "forEach_prop (\<lambda>p v. setWindowProp p v False)
        (currentUpdatedPropsValueMap s) (globalContext s) = (r, g')"
      and "snd (active s) = s\<lparr>globalContext := g'\<rparr> \<or>
           snd (active s) = s\<lparr>globalContext := g', sandboxRunning := True\<rparr>"
proof (cases "sandboxRunning s")
  case True
  then have "snd (active s) = s\<lparr>sandboxRunning := True\<rparr>" by (simp add: active_def)
  then show thesis by (rule that(1))
next
  case False
  obtain r g' where l: "forEach_prop (\<lambda>p v. setWindowProp p v False)
      (currentUpdatedPropsValueMap s) (globalContext s) = (r, g')"
    by (cases "forEach_prop (\<lambda>p v. setWindowProp p v False)
      (currentUpdatedPropsValueMap s) (globalContext s)")
  with False have "snd (active s) = s\<lparr>globalContext := g'\<rparr> \<or>
           snd (active s) = s\<lparr>globalContext := g', sandboxRunning := True\<rparr>"
    by (auto simp: active_def split: sum.splits)
  with l show thesis by (rule that(2))
qed

lemma inactive_loops:
  obtains r1 g1 r2 g2 where
    "forEach_prop (\<lambda>p v. setWindowProp p v False)
       (modifiedPropsOriginalValueMapInSandbox s) (globalContext s) = (r1, g1)"
    and "forEach_prop (\<lambda>p v. setWindowProp p VUndefined True)
       (addedPropsMapInSandbox s) g1 = (r2, g2)"
    and "snd (inactive s) = s\<lparr>globalContext := g1\<rparr> \<or>
         snd (inactive s) = s\<lparr>globalContext := g2\<rparr> \<or>
         snd (inactive s) = s\<lparr>globalContext := g2, sandboxRunning := False\<rparr>"
proof -
  obtain r1 g1 where l1: "forEach_prop (\<lambda>p v. setWindowProp p v False)
      (modifiedPropsOriginalValueMapInSandbox s) (globalContext s) = (r1, g1)"
    by (cases "forEach_prop (\<lambda>p v. setWindowProp p v False)
      (modifiedPropsOriginalValueMapInSandbox s) (globalContext s)")
  obtain r2 g2 where l2: "forEach_prop (\<lambda>p v. setWindowProp p VUndefined True)
      (addedPropsMapInSandbox s) g1 = (r2, g2)"
    by (cases "forEach_prop (\<lambda>p v. setWindowProp p VUndefined True)
      (addedPropsMapInSandbox s) g1")
  from l1 l2 have "snd (inactive s) = s\<lparr>globalContext := g1\<rparr> \<or>
         snd (inactive s) = s\<lparr>globalContext := g2\<rparr> \<or>
         snd (inactive s) = s\<lparr>globalContext := g2, sandboxRunning := False\<rparr>"
    by (auto simp: inactive_def split: sum.splits)
  with l1 l2 show thesis by (rule that)
qed

lemma builtin_in_place_active:
  assumes "builtin_in_place s"
  shows "builtin_in_place (snd (active s))"
proof (cases rule: active_result [of s])
  case 1
  with assms show ?thesis
    by (simp add: builtin_in_place_def modified_keys_def current_keys_def)
next
  case (2 r g')
  from restore_loop_other [OF 2(1), of "KString ''hasOwnProperty''"] assms
  have "g' (KString ''hasOwnProperty'') = None"
    by (simp add: builtin_in_place_def current_keys_def)
  with 2(2) assms show ?thesis
    by (auto simp: builtin_in_place_def modified_keys_def current_keys_def)
qed

lemma builtin_in_place_inactive:
  assumes "builtin_in_place s"
  shows "builtin_in_place (snd (inactive s))"
proof -
  obtain r1 g1 r2 g2 where
    l1: "forEach_prop (\<lambda>p v. setWindowProp p v False)
       (modifiedPropsOriginalValueMapInSandbox s) (globalContext s) = (r1, g1)"
    and l2: "forEach_prop (\<lambda>p v. setWindowProp p VUndefined True)
       (addedPropsMapInSandbox s) g1 = (r2, g2)"
    and s': "snd (inactive s) = s\<lparr>globalContext := g1\<rparr> \<or>
         snd (inactive s) = s\<lparr>globalContext := g2\<rparr> \<or>
         snd (inactive s) = s\<lparr>globalContext := g2, sandboxRunning := False\<rparr>"
    by (rule inactive_loops)
  from restore_loop_other [OF l1, of "KString ''hasOwnProperty''"] assms
  have g1: "g1 (KString ''hasOwnProperty'') = None"
    by (simp add: builtin_in_place_def modified_keys_def)
  from delete_loop_absent [OF l2 g1] have g2: "g2 (KString ''hasOwnProperty'') = None" .
  from s' g1 g2 assms show ?thesis
    by (auto simp: builtin_in_place_def modified_keys_def current_keys_def)
qed

lemma builtin_in_place_step:
  "op_key x \<noteq> Some (KString ''hasOwnProperty'') \<Longrightarrow> builtin_in_place s \<Longrightarrow>
   builtin_in_place (sandbox_step x s)"
  by (cases x)
     (simp_all add: builtin_in_place_proxy_set
        builtin_in_place_proxy_defineProperty builtin_in_place_active builtin_in_place_inactive)

lemma builtin_in_place_run:
  "\<forall>x\<in>set xs. op_key x \<noteq> Some (KString ''hasOwnProperty'') \<Longrightarrow> builtin_in_place s \<Longrightarrow>
   builtin_in_place (sandbox_run xs s)"
  by (induction xs arbitrary: s) (simp_all add: builtin_in_place_step)

lemma LegacySandbox_builtin_in_place:
  "g0 (KString ''hasOwnProperty'') = None \<Longrightarrow> builtin_in_place (LegacySandbox nm g0)"
  by (simp add: builtin_in_place_def LegacySandbox_def modified_keys_def current_keys_def
      map_keys_def)







text \<open>The key sets, one operation at a time.\<close>

lemma setTrap_keys:
  assumes "setTrap p v ov sync s = (r, s')"
    and "globalContext s (KString ''hasOwnProperty'') = None"
  shows "map_keys (addedPropsMapInSandbox s) \<subseteq> map_keys (addedPropsMapInSandbox s')"
    and "map_keys (addedPropsMapInSandbox s') \<subseteq> insert p (map_keys (addedPropsMapInSandbox s))"
    and "p \<in> dom (globalContext s) \<Longrightarrow>
           map_keys (addedPropsMapInSandbox s') = map_keys (addedPropsMapInSandbox s)"
    and "map_keys (modifiedPropsOriginalValueMapInSandbox s) \<subseteq>
           map_keys (modifiedPropsOriginalValueMapInSandbox s')"
    and "map_keys (modifiedPropsOriginalValueMapInSandbox s') \<subseteq>
           insert p (map_keys (modifiedPropsOriginalValueMapInSandbox s))"
    and "p \<notin> dom (globalContext s) \<Longrightarrow>
           map_keys (modifiedPropsOriginalValueMapInSandbox s') =
           map_keys (modifiedPropsOriginalValueMapInSandbox s)"
  using assms
  by (auto simp: setTrap_def Let_def call_hasOwnProperty_builtin hasOwnProperty_def
      map_keys_update split: if_splits sum.splits)

lemma setTrap_dom:
  assumes "setTrap p v ov sync s = (r, s')"
  shows "dom (globalContext s) \<subseteq> dom (globalContext s')"
  using assms
  by (auto simp: setTrap_def Let_def js_assign_def
      split: if_splits sum.splits option.splits)

lemma key_step_refl: "key_step s s"
  by (auto simp: key_step_def)

lemma key_step_setTrap:
  assumes "setTrap p v ov sync s = (r, s')"
    and "globalContext s (KString ''hasOwnProperty'') = None"
  shows "key_step s s'"
proof -
  note k = setTrap_keys [OF assms] and d = setTrap_dom [OF assms(1)]
  have "(added_keys s' - added_keys s) \<inter> own_keys s = {}"
    using k(2,3) unfolding added_keys_def own_keys_def by blast
  moreover have "modified_keys s' - modified_keys s \<subseteq> own_keys s'"
    using k(5,6) d unfolding modified_keys_def own_keys_def by blast
  ultimately show ?thesis
    using k(1,4) d unfolding key_step_def added_keys_def modified_keys_def own_keys_def
    by blast
qed

lemma key_step_proxy_set:
  "proxy_set p v s = (r, s') \<Longrightarrow> globalContext s (KString ''hasOwnProperty'') = None \<Longrightarrow>
   key_step s s'"
  unfolding proxy_set_def Let_def by (rule key_step_setTrap)

lemma key_step_proxy_defineProperty:
  assumes "proxy_defineProperty p d s = (r, s')"
    and "globalContext s (KString ''hasOwnProperty'') = None"
    and "p \<noteq> KString ''hasOwnProperty''"
  shows "key_step s s'"
  using assms(1)
proof (cases rule: proxy_defineProperty_setTrap)
  case thrown
  then show ?thesis by (simp add: key_step_refl)
next
  case (defined b g' r1)
  note rd = defined(1) and st = defined(2)
  have dom_g': "dom g' = insert p (dom (globalContext s)) \<or> g' = globalContext s \<and> p \<in> dom g'"
    using rd
    by (auto simp: reflect_defineProperty_def validate_and_apply_def
        split: option.splits if_splits)
  then have p_own: "p \<in> dom g'" and grow: "dom (globalContext s) \<subseteq> dom g'" by auto
  let ?s1 = "s\<lparr>globalContext := g'\<rparr>"
  from reflect_defineProperty_other_key [OF rd, of "KString ''hasOwnProperty''"] assms(2,3)
  have h1: "globalContext ?s1 (KString ''hasOwnProperty'') = None" by simp
  note k = setTrap_keys [OF st h1] and dd = setTrap_dom [OF st]
  have a: "added_keys s' = added_keys s"
    using k(3) p_own by (simp add: added_keys_def)
  have "modified_keys s' - modified_keys s \<subseteq> own_keys s'"
    using k(5) dd p_own unfolding modified_keys_def own_keys_def
    by (simp del: dom_eq_empty_conv) blast
  moreover have "modified_keys s \<subseteq> modified_keys s'"
    using k(4) by (simp add: modified_keys_def)
  moreover have "own_keys s \<subseteq> own_keys s'"
    using dd grow by (auto simp: own_keys_def)
  ultimately show ?thesis unfolding key_step_def a by blast
qed

lemma key_step_active: "active s = (r, s') \<Longrightarrow> key_step s s'"
  by (auto simp: active_def key_step_def added_keys_def modified_keys_def own_keys_def
      split: if_splits prod.splits sum.splits dest!: forEach_restore_dom)

lemma key_step_inactive:
  assumes "inactive s = (r, s')"
  shows "key_step s s'"
proof -
  obtain r1 g1 where f1: "forEach_prop (\<lambda>p v. setWindowProp p v False)
      (modifiedPropsOriginalValueMapInSandbox s) (globalContext s) = (r1, g1)"
    by (cases "forEach_prop (\<lambda>p v. setWindowProp p v False)
      (modifiedPropsOriginalValueMapInSandbox s) (globalContext s)")
  obtain r2 g2 where f2: "forEach_prop (\<lambda>p v. setWindowProp p VUndefined True)
      (addedPropsMapInSandbox s) g1 = (r2, g2)"
    by (cases "forEach_prop (\<lambda>p v. setWindowProp p VUndefined True)
      (addedPropsMapInSandbox s) g1")
  note d1 = forEach_restore_dom [OF f1] and d2 = forEach_delete_dom [OF f2]
  have maps: "addedPropsMapInSandbox s' = addedPropsMapInSandbox s"
    "modifiedPropsOriginalValueMapInSandbox s' = modifiedPropsOriginalValueMapInSandbox s"
    using assms f1 f2 by (auto simp: inactive_def split: sum.splits)
  have "globalContext s' = g1 \<or> globalContext s' = g2"
    using assms f1 f2 by (auto simp: inactive_def split: sum.splits)
  then have "own_keys s - added_keys s \<subseteq> own_keys s'"
    using d1 d2 unfolding own_keys_def added_keys_def by blast
  then show ?thesis
    by (simp add: key_step_def added_keys_def modified_keys_def maps)
qed

lemma key_step_sandbox_step:
  assumes "op_key x \<noteq> Some (KString ''hasOwnProperty'')" and "builtin_in_place s"
  shows "key_step s (sandbox_step x s)"
proof -
  from assms(2) have h: "globalContext s (KString ''hasOwnProperty'') = None"
    by (simp add: builtin_in_place_def)
  show ?thesis
  proof (cases x)
    case (ProxySet p v)
    then show ?thesis
      using key_step_proxy_set [of p v s _ _ , OF _ h] by (cases "proxy_set p v s") simp
  next
    case (ProxyDefineProperty p d)
    with assms(1) have "p \<noteq> KString ''hasOwnProperty''" by auto
    with ProxyDefineProperty show ?thesis
      using key_step_proxy_defineProperty [of p d s _ _, OF _ h]
      by (cases "proxy_defineProperty p d s") simp
  next
    case Active
    then show ?thesis using key_step_active [of s] by (cases "active s") simp
  next
    case Inactive
    then show ?thesis using key_step_inactive [of s] by (cases "inactive s") simp
  qed
qed

lemma keeps_original_step: "key_step s s' \<Longrightarrow> keeps_original g0 s \<Longrightarrow> keeps_original g0 s'"
  unfolding key_step_def keeps_original_def by blast

lemma settled_step: "key_step s s' \<Longrightarrow> settled p s \<Longrightarrow> settled p s'"
  unfolding key_step_def settled_def by blast

lemma modified_known_step: "key_step s s' \<Longrightarrow> modified_known s \<Longrightarrow> modified_known s'"
  unfolding key_step_def modified_known_def by blast

lemma key_sets_run:
  assumes "\<forall>x\<in>set xs. op_key x \<noteq> Some (KString ''hasOwnProperty'')" and "builtin_in_place s"
  shows "keeps_original g0 s \<Longrightarrow> keeps_original g0 (sandbox_run xs s)"
    and "settled p s \<Longrightarrow> settled p (sandbox_run xs s)"
    and "modified_known s \<Longrightarrow> modified_known (sandbox_run xs s)"
  using assms
proof (induction xs arbitrary: s)
  case Nil
  { case 1 then show ?case by simp }
  { case 2 then show ?case by simp }
  { case 3 then show ?case by simp }
next
  case (Cons x xs)
  { case 1
    then have "keeps_original g0 (sandbox_step x s)" "builtin_in_place (sandbox_step x s)"
      by (auto intro: keeps_original_step key_step_sandbox_step builtin_in_place_step)
    with 1(2) show ?case by (simp add: Cons.IH(1)) }
  { case 2
    then have "settled p (sandbox_step x s)" "builtin_in_place (sandbox_step x s)"
      by (auto intro: settled_step key_step_sandbox_step builtin_in_place_step)
    with 2(2) show ?case by (simp add: Cons.IH(2)) }
  { case 3
    then have "modified_known (sandbox_step x s)" "builtin_in_place (sandbox_step x s)"
      by (auto intro: modified_known_step key_step_sandbox_step builtin_in_place_step)
    with 3(2) show ?case by (simp add: Cons.IH(3)) }
qed

lemma LegacySandbox_keys:
  "keeps_original g0 (LegacySandbox nm g0)" "modified_known (LegacySandbox nm g0)"
  by (simp_all add: keeps_original_def modified_known_def LegacySandbox_def own_keys_def
      added_keys_def modified_keys_def map_keys_def)














lemmas sandbox_eval =
  LegacySandbox_def proxy_set_def setTrap_def Let_def js_get_def hasOwnProperty_def map_has_def
  call_hasOwnProperty_def global_builtin_def builtins_def
  js_assign_def inactive_def active_def setWindowProp_def isPropConfigurable_def js_delete_def
  object_defineProperty_def validate_and_apply_def field_or_def field_differs_def
  global_values_def proxy_defineProperty_def reflect_defineProperty_def
  added_keys_def modified_keys_def map_keys_def

text \<open>
  A key that \<^verbatim>\<open>defineProperty\<close> creates through the proxy is on the global when
  \<^verbatim>\<open>setTrap\<close> looks, so it is recorded as modified, with the original value
  \<^verbatim>\<open>undefined\<close>, and not as added: \<^verbatim>\<open>inactive()\<close> sets it to \<^verbatim>\<open>undefined\<close> and
  leaves the key on the global. The restoration property below is about writes.
\<close>

lemma defineProperty_key_outlives_inactive:
  "modifiedPropsOriginalValueMapInSandbox
     (sandbox_run [ProxyDefineProperty (KString ''z'')
        \<lparr>d_value = Some (VNum 1), d_writable = Some True, d_enumerable = Some True,
         d_configurable = Some True\<rparr>] (LegacySandbox ''app'' builtins))
     = [(KString ''z'', VUndefined)] \<and>
   addedPropsMapInSandbox
     (sandbox_run [ProxyDefineProperty (KString ''z'')
        \<lparr>d_value = Some (VNum 1), d_writable = Some True, d_enumerable = Some True,
         d_configurable = Some True\<rparr>] (LegacySandbox ''app'' builtins)) = [] \<and>
   global_values (globalContext (snd (inactive
     (sandbox_run [ProxyDefineProperty (KString ''z'')
        \<lparr>d_value = Some (VNum 1), d_writable = Some True, d_enumerable = Some True,
         d_configurable = Some True\<rparr>] (LegacySandbox ''app'' builtins)))))
     (KString ''z'') = Some VUndefined"
  by (simp add: sandbox_eval)




text \<open>
  Claim C2, as amended. The global has no own \<^verbatim>\<open>hasOwnProperty\<close> when the sandbox is
  created, and the operations that go through the proxy (writes, \<^verbatim>\<open>defineProperty\<close>,
  with activations and deactivations in between) are under names other than
  \<^verbatim>\<open>hasOwnProperty\<close>. Then a key that was an own property of the shared global when the
  sandbox was created is never recorded as added; and a key that is recorded as modified
  and not as added is never recorded as added later. The two maps are not disjoint in
  general: a key the sandbox created is recorded as added and, by the next write to it,
  as modified too (see the counterexample below).
\<close>

theorem C2_added_never_original_and_no_migration_back:
  assumes "g0 (KString ''hasOwnProperty'') = None"
    and "\<forall>x\<in>set xs. op_key x \<noteq> Some (KString ''hasOwnProperty'')"
    and "\<forall>x\<in>set ys. op_key x \<noteq> Some (KString ''hasOwnProperty'')"
  shows
  "added_keys (sandbox_run xs (LegacySandbox nm g0)) \<inter> dom g0 = {} \<and>
   (p \<in> modified_keys (sandbox_run xs (LegacySandbox nm g0)) \<and>
    p \<notin> added_keys (sandbox_run xs (LegacySandbox nm g0)) \<longrightarrow>
      p \<notin> added_keys (sandbox_run ys (sandbox_run xs (LegacySandbox nm g0))))"
proof -
  let ?s = "sandbox_run xs (LegacySandbox nm g0)"
  have b0: "builtin_in_place (LegacySandbox nm g0)"
    using assms(1) by (rule LegacySandbox_builtin_in_place)
  note b = builtin_in_place_run [OF assms(2) b0]
  have "keeps_original g0 ?s"
    by (rule key_sets_run(1) [OF assms(2) b0]) (rule LegacySandbox_keys)
  then have a: "added_keys ?s \<inter> dom g0 = {}" by (simp add: keeps_original_def)
  have k: "modified_known ?s"
    by (rule key_sets_run(3) [OF assms(2) b0]) (rule LegacySandbox_keys)
  have "p \<notin> added_keys (sandbox_run ys ?s)"
    if "p \<in> modified_keys ?s" "p \<notin> added_keys ?s"
  proof -
    from k that have "settled p ?s" unfolding modified_known_def settled_def by blast
    from key_sets_run(2) [OF assms(3) b this] show ?thesis by (simp add: settled_def)
  qed
  with a show ?thesis by blast
qed

theorem C2_witness:
  "page_global (KString ''hasOwnProperty'') = None \<and>
   list_all (\<lambda>x. op_key x \<noteq> Some (KString ''hasOwnProperty''))
      [ProxySet (KString ''x'') (VNum 2), ProxySet (KString ''y'') (VNum 5)] \<and>
   list_all (\<lambda>x. op_key x \<noteq> Some (KString ''hasOwnProperty''))
      [Inactive, Active, ProxySet (KString ''x'') (VNum 3)] \<and>
   added_keys (sandbox_run [ProxySet (KString ''x'') (VNum 2), ProxySet (KString ''y'') (VNum 5)]
      (LegacySandbox ''app'' page_global)) = {KString ''y''} \<and>
   dom page_global = {KString ''x'', KString ''window'', KString ''Object'', KString ''Reflect''} \<and>
   KString ''x'' \<in> modified_keys (sandbox_run
      [ProxySet (KString ''x'') (VNum 2), ProxySet (KString ''y'') (VNum 5)]
      (LegacySandbox ''app'' page_global)) \<and>
   KString ''x'' \<notin> added_keys (sandbox_run
      [ProxySet (KString ''x'') (VNum 2), ProxySet (KString ''y'') (VNum 5)]
      (LegacySandbox ''app'' page_global)) \<and>
   KString ''x'' \<notin> added_keys (sandbox_run [Inactive, Active, ProxySet (KString ''x'') (VNum 3)]
      (sandbox_run [ProxySet (KString ''x'') (VNum 2), ProxySet (KString ''y'') (VNum 5)]
         (LegacySandbox ''app'' page_global)))"
proof -
  let ?s = "sandbox_run [ProxySet (KString ''x'') (VNum 2), ProxySet (KString ''y'') (VNum 5)]
      (LegacySandbox ''app'' page_global)"
  have b: "page_global (KString ''hasOwnProperty'') = None"
    by (simp add: page_global_def builtins_def)
  have h1: "\<forall>x\<in>set [ProxySet (KString ''x'') (VNum 2), ProxySet (KString ''y'') (VNum 5)].
      op_key x \<noteq> Some (KString ''hasOwnProperty'')"
    and h2: "\<forall>x\<in>set [Inactive, Active, ProxySet (KString ''x'') (VNum 3)].
      op_key x \<noteq> Some (KString ''hasOwnProperty'')"
    by simp_all
  have m: "KString ''x'' \<in> modified_keys ?s" and a: "added_keys ?s = {KString ''y''}"
    by (simp_all add: sandbox_eval page_global_def)
  have d: "dom page_global =
      {KString ''x'', KString ''window'', KString ''Object'', KString ''Reflect''}"
    by (auto simp: page_global_def builtins_def)
  from C2_added_never_original_and_no_migration_back
    [of page_global "[ProxySet (KString ''x'') (VNum 2), ProxySet (KString ''y'') (VNum 5)]"
        "[Inactive, Active, ProxySet (KString ''x'') (VNum 3)]" "''app''" "KString ''x''",
     OF b h1 h2] m a
  have "KString ''x'' \<notin> added_keys
     (sandbox_run [Inactive, Active, ProxySet (KString ''x'') (VNum 3)] ?s)"
    by simp
  with m a d b h1 h2 show ?thesis by simp
qed

text \<open>
  Counterexamples to claim C2 as stated. First, \<open>y\<close> is not on the global; the first
  write records it as added (and not as modified), the second write finds it on the
  global and records it as modified as well, while the sandbox is running. Second, the
  host's \<open>x\<close> is written and recorded as modified; the guest then writes
  \<^verbatim>\<open>hasOwnProperty = () => false\<close>, and the next write of \<open>x\<close> records it as added too.
\<close>

theorem C2_counterexample:
  "sandboxRunning (sandbox_run [ProxySet (KString ''y'') (VNum 1), ProxySet (KString ''y'') (VNum 2)]
      (LegacySandbox ''app'' Map.empty)) \<and>
   KString ''y'' \<in> added_keys (sandbox_run [ProxySet (KString ''y'') (VNum 1)]
      (LegacySandbox ''app'' Map.empty)) \<and>
   KString ''y'' \<notin> modified_keys (sandbox_run [ProxySet (KString ''y'') (VNum 1)]
      (LegacySandbox ''app'' Map.empty)) \<and>
   KString ''y'' \<in> added_keys (sandbox_run [ProxySet (KString ''y'') (VNum 1), ProxySet (KString ''y'') (VNum 2)]
      (LegacySandbox ''app'' Map.empty)) \<and>
   KString ''y'' \<in> modified_keys (sandbox_run [ProxySet (KString ''y'') (VNum 1), ProxySet (KString ''y'') (VNum 2)]
      (LegacySandbox ''app'' Map.empty)) \<and>
   KString ''x'' \<in> dom plain_global \<and>
   KString ''x'' \<in> modified_keys (sandbox_run [ProxySet (KString ''x'') (VNum 2)]
      (LegacySandbox ''app'' plain_global)) \<and>
   KString ''x'' \<notin> added_keys (sandbox_run [ProxySet (KString ''x'') (VNum 2)]
      (LegacySandbox ''app'' plain_global)) \<and>
   KString ''x'' \<in> added_keys (sandbox_run
      [ProxySet (KString ''x'') (VNum 2), ProxySet (KString ''hasOwnProperty'') always_false,
       ProxySet (KString ''x'') (VNum 3)]
      (LegacySandbox ''app'' plain_global))"
  by (simp add: sandbox_eval plain_global_def always_false_def)

text \<open>
  Claim C6. Reading \<^verbatim>\<open>window\<close>, \<^verbatim>\<open>self\<close>, \<^verbatim>\<open>top\<close> or \<^verbatim>\<open>parent\<close> through the proxy
  returns the proxy itself and not the real shared global, in every state of the sandbox
  and whatever the global holds under that key.
\<close>

theorem C6_self_reference_resolves_to_proxy:
  "p = KString ''window'' \<or> p = KString ''self'' \<or> p = KString ''top'' \<or> p = KString ''parent'' \<Longrightarrow>
   proxy_get p s = VProxy \<and> proxy_get p s \<noteq> VRawWindow"
  by (auto simp: proxy_get_def)

theorem C6_witness:
  "js_get (globalContext (LegacySandbox ''app'' page_global)) (KString ''window'') = VRawWindow \<and>
   proxy_get (KString ''window'') (LegacySandbox ''app'' page_global) = VProxy \<and>
   proxy_get (KString ''window'') (snd (inactive (LegacySandbox ''app'' page_global))) = VProxy"
  using C6_self_reference_resolves_to_proxy [of "KString ''window''" "LegacySandbox ''app'' page_global"]
    C6_self_reference_resolves_to_proxy [of "KString ''window''"
      "snd (inactive (LegacySandbox ''app'' page_global))"]
  by (simp add: LegacySandbox_def js_get_def page_global_def)

text \<open>
  Claim C10. A write through the proxy while the sandbox is not running returns
  \<^verbatim>\<open>true\<close> without throwing and leaves the sandbox (its three maps, the last written key)
  and the shared global exactly as they were; and the sandbox is in that state after every
  \<^verbatim>\<open>inactive()\<close> that returned.
\<close>

theorem C10_write_dropped_when_not_running:
  "(\<not> sandboxRunning s \<longrightarrow> proxy_set p v s = (Inr True, s)) \<and>
   (fst (inactive s) = Inr () \<longrightarrow>
      proxy_set p v (snd (inactive s)) = (Inr True, snd (inactive s)))"
proof -
  have a: "proxy_set p v s' = (Inr True, s')" if "\<not> sandboxRunning s'" for s'
    using that by (simp add: proxy_set_def setTrap_def)
  have "\<not> sandboxRunning (snd (inactive s))" if "fst (inactive s) = Inr ()"
    using that by (auto simp: inactive_def split: prod.splits sum.splits)
  with a show ?thesis by blast
qed

theorem C10_witness:
  "fst (inactive (sandbox_run [ProxySet (KString ''x'') (VNum 2)] (LegacySandbox ''app'' page_global)))
     = Inr () \<and>
   \<not> sandboxRunning (snd (inactive
       (sandbox_run [ProxySet (KString ''x'') (VNum 2)] (LegacySandbox ''app'' page_global)))) \<and>
   proxy_set (KString ''x'') (VNum 7)
     (snd (inactive (sandbox_run [ProxySet (KString ''x'') (VNum 2)] (LegacySandbox ''app'' page_global))))
   = (Inr True,
      snd (inactive (sandbox_run [ProxySet (KString ''x'') (VNum 2)] (LegacySandbox ''app'' page_global)))) \<and>
   global_values (globalContext (snd (proxy_set (KString ''x'') (VNum 7)
     (snd (inactive (sandbox_run [ProxySet (KString ''x'') (VNum 2)] (LegacySandbox ''app'' page_global)))))))
     (KString ''x'') = Some (VNum 1)"
proof -
  let ?s = "sandbox_run [ProxySet (KString ''x'') (VNum 2)] (LegacySandbox ''app'' page_global)"
  have i: "fst (inactive ?s) = Inr ()" and r: "\<not> sandboxRunning (snd (inactive ?s))"
    and g: "global_values (globalContext (snd (inactive ?s))) (KString ''x'') = Some (VNum 1)"
    by (simp_all add: sandbox_eval page_global_def)
  from C10_write_dropped_when_not_running [of "snd (inactive ?s)" "KString ''x''" "VNum 7"] r
  have "proxy_set (KString ''x'') (VNum 7) (snd (inactive ?s)) = (Inr True, snd (inactive ?s))"
    by blast
  with i r g show ?thesis by simp
qed

section \<open>Properties of the shared prototype patches\<close>

lemma one_layer_overwritten: "one_layer f \<Longrightarrow> \<not> overwritten f \<Longrightarrow> f = Native"
  by (auto simp: one_layer_def)

lemma one_layer_Overwritten: "\<not> overwritten f \<Longrightarrow> one_layer (Overwritten f)"
  by (cases f) (simp_all add: one_layer_def)

lemma patchHTML_one_layer:
  assumes "slots_one_layer p"
    and "patchHTMLDynamicAppendPrototypeFunctions p = (u, p')"
  shows "slots_one_layer p' \<and> closure_one_layer u"
proof -
  define p1 where "p1 =
    (if \<not> overwritten (headAppendChild p) \<and> \<not> overwritten (bodyAppendChild p) \<and>
        \<not> overwritten (headInsertBefore p)
     then p\<lparr>headAppendChild := Overwritten (headAppendChild p),
            bodyAppendChild := Overwritten (bodyAppendChild p),
            headInsertBefore := Overwritten (headInsertBefore p)\<rparr>
     else p)"
  have p1: "slots_one_layer p1"
    using assms(1) by (simp add: p1_def slots_one_layer_def one_layer_Overwritten)
  have "patchHTMLDynamicAppendPrototypeFunctions p =
      (\<lparr>rawHeadAppendChild = headAppendChild p, rawBodyAppendChild = bodyAppendChild p,
           rawHeadInsertBefore = headInsertBefore p, rawHeadRemoveChild = headRemoveChild p1,
           rawBodyRemoveChild = bodyRemoveChild p1\<rparr>,
       if \<not> overwritten (headRemoveChild p1) \<and> \<not> overwritten (bodyRemoveChild p1)
                then p1\<lparr>headRemoveChild := Overwritten (headRemoveChild p1),
                        bodyRemoveChild := Overwritten (bodyRemoveChild p1)\<rparr>
                else p1)"
    by (simp only: patchHTMLDynamicAppendPrototypeFunctions_def Let_def p1_def)
  with assms(2)
  have u: "u = \<lparr>rawHeadAppendChild = headAppendChild p, rawBodyAppendChild = bodyAppendChild p,
           rawHeadInsertBefore = headInsertBefore p, rawHeadRemoveChild = headRemoveChild p1,
           rawBodyRemoveChild = bodyRemoveChild p1\<rparr>"
    and p': "p' = (if \<not> overwritten (headRemoveChild p1) \<and> \<not> overwritten (bodyRemoveChild p1)
                then p1\<lparr>headRemoveChild := Overwritten (headRemoveChild p1),
                        bodyRemoveChild := Overwritten (bodyRemoveChild p1)\<rparr>
                else p1)"
    by simp_all
  have "slots_one_layer p'"
    using p1 by (simp add: p' slots_one_layer_def one_layer_Overwritten)
  moreover have "closure_one_layer u"
    using p1 assms(1) by (simp add: u closure_one_layer_def slots_one_layer_def)
  ultimately show ?thesis by simp
qed

lemma unpatch_one_layer: "closure_one_layer u \<Longrightarrow> slots_one_layer (unpatch u p)"
  by (simp add: unpatch_def slots_one_layer_def closure_one_layer_def)

lemma free_one_layer:
  "slots_one_layer (prototypes w) \<Longrightarrow> closure_one_layer (freer_unpatch f) \<Longrightarrow>
   slots_one_layer (prototypes (free f w))"
  by (simp add: free_def Let_def unpatch_one_layer)

lemma patch_step_layers_ok:
  assumes "layers_ok st"
  shows "layers_ok (patch_step a st)"
proof -
  obtain w fs where st: "st = (w, fs)" by (cases st)
  from assms st have w: "slots_one_layer (prototypes w)"
    and fs: "\<forall>f\<in>set fs. closure_one_layer (freer_unpatch f)"
    by (simp_all add: layers_ok_def)
  obtain u p' where ph: "patchHTMLDynamicAppendPrototypeFunctions (prototypes w) = (u, p')"
    by (cases "patchHTMLDynamicAppendPrototypeFunctions (prototypes w)")
  note ol = patchHTML_one_layer [OF w ph]
  show ?thesis
  proof (cases a)
    case (PatchStrict n m)
    with st ph ol fs show ?thesis
      by (simp add: layers_ok_def patchStrictSandbox_def Let_def)
  next
    case (PatchLoose n m)
    with st ph ol fs show ?thesis
      by (simp add: layers_ok_def patchLooseSandbox_def Let_def)
  next
    case (Free i)
    with st w fs show ?thesis
      by (simp add: layers_ok_def free_one_layer)
  qed
qed

lemma patch_run_layers_ok: "layers_ok st \<Longrightarrow> layers_ok (patch_run as st)"
  by (induction as arbitrary: st) (simp_all add: patch_step_layers_ok)

lemma native_layers_ok: "layers_ok (native_world, [])"
  by (simp add: layers_ok_def native_world_def slots_one_layer_def one_layer_def)

lemma free_keeps_prototypes:
  "\<not> isAllAppsUnmounted (appsCounterMap (free f w)) \<Longrightarrow> prototypes (free f w) = prototypes w"
  by (simp add: free_def Let_def split: if_splits)

text \<open>Calls of the patchers alone: the first installs, the later ones find the patch.\<close>

lemma patchHTML_patched_once:
  "p = patched_once \<or> p = prototypes native_world \<Longrightarrow>
   snd (patchHTMLDynamicAppendPrototypeFunctions p) = patched_once"
  by (auto simp: patchHTMLDynamicAppendPrototypeFunctions_def Let_def patched_once_def
      native_world_def)

lemma patch_step_patched_once:
  assumes "is_patch a"
    and "prototypes (fst st) = patched_once \<or> prototypes (fst st) = prototypes native_world"
  shows "prototypes (fst (patch_step a st)) = patched_once"
proof -
  obtain w fs where st: "st = (w, fs)" by (cases st)
  from patchHTML_patched_once [of "prototypes w"] assms(2) st
  have "snd (patchHTMLDynamicAppendPrototypeFunctions (prototypes w)) = patched_once" by simp
  with assms(1) st show ?thesis
    by (cases a)
       (auto simp: patchStrictSandbox_def patchLooseSandbox_def Let_def split: prod.splits)
qed

lemma patch_run_patched_once:
  "list_all is_patch as \<Longrightarrow> as \<noteq> [] \<or> prototypes (fst st) = patched_once \<Longrightarrow>
   prototypes (fst st) = patched_once \<or> prototypes (fst st) = prototypes native_world \<Longrightarrow>
   prototypes (fst (patch_run as st)) = patched_once"
proof (induction as arbitrary: st)
  case Nil
  then show ?case by simp
next
  case (Cons a as)
  from Cons.prems have "prototypes (fst (patch_step a st)) = patched_once"
    by (intro patch_step_patched_once) simp_all
  with Cons.prems(1) show ?case by (simp add: Cons.IH)
qed

text \<open>
  Claim C4. Whatever patcher calls and \<^verbatim>\<open>free\<close> calls the applications of a page make,
  each of the five prototype slots holds the native function or one overwriting function
  around the native one, never a patch on top of a patch; any number of patcher calls in
  a row leaves exactly the one patch that the first installed; and a \<^verbatim>\<open>free\<close> call
  changes the slots only if, after its decrement, the bootstrapping and mounting counts
  of every application in the counter map are zero.
\<close>

theorem C4_patched_once_and_released_only_when_all_unmounted:
  "slots_one_layer (prototypes (fst (patch_run as (native_world, [])))) \<and>
   (list_all is_patch as \<and> as \<noteq> [] \<longrightarrow>
      prototypes (fst (patch_run as (native_world, []))) = patched_once) \<and>
   (prototypes (free f w) \<noteq> prototypes w \<longrightarrow> isAllAppsUnmounted (appsCounterMap (free f w)))"
proof -
  from patch_run_layers_ok [OF native_layers_ok, of as]
  have "slots_one_layer (prototypes (fst (patch_run as (native_world, []))))"
    by (simp add: layers_ok_def)
  moreover have "prototypes (fst (patch_run as (native_world, []))) = patched_once"
    if "list_all is_patch as" "as \<noteq> []"
    using that by (intro patch_run_patched_once) simp_all
  moreover have "isAllAppsUnmounted (appsCounterMap (free f w))"
    if "prototypes (free f w) \<noteq> prototypes w"
    using that free_keeps_prototypes [of f w] by blast
  ultimately show ?thesis by blast
qed

theorem C4_witness:
  "prototypes (fst (patch_run
      [PatchStrict ''a'' False, PatchStrict ''b'' False, PatchStrict ''a'' True]
      (native_world, []))) = patched_once \<and>
   prototypes (fst (patch_run [PatchStrict ''a'' False] (native_world, []))) = patched_once \<and>
   prototypes (free (hd (snd (patch_run [PatchStrict ''a'' False] (native_world, []))))
      (fst (patch_run [PatchStrict ''a'' False] (native_world, []))))
     = prototypes native_world \<and>
   isAllAppsUnmounted (appsCounterMap
     (free (hd (snd (patch_run [PatchStrict ''a'' False] (native_world, []))))
        (fst (patch_run [PatchStrict ''a'' False] (native_world, [])))))"
proof -
  let ?st = "patch_run [PatchStrict ''a'' False] (native_world, [])"
  have c: "prototypes (free (hd (snd ?st)) (fst ?st)) = prototypes native_world"
    by code_simp
  have b: "prototypes (fst ?st) = patched_once"
    by code_simp
  from b c have "prototypes (free (hd (snd ?st)) (fst ?st)) \<noteq> prototypes (fst ?st)"
    by (simp add: native_world_def patched_once_def)
  with C4_patched_once_and_released_only_when_all_unmounted
    [of "[PatchStrict ''a'' False, PatchStrict ''b'' False, PatchStrict ''a'' True]"
      "hd (snd ?st)" "fst ?st"]
  have "prototypes (fst (patch_run
      [PatchStrict ''a'' False, PatchStrict ''b'' False, PatchStrict ''a'' True]
      (native_world, []))) = patched_once"
    and "isAllAppsUnmounted (appsCounterMap (free (hd (snd ?st)) (fst ?st)))"
    by simp_all
  with b c show ?thesis by simp
qed

section \<open>Properties of the lifecycle orchestrator\<close>

lemma call_patchers_result:
  "call_patchers ps c = (map FreerOf ps, c\<lparr>trace := trace c @ map Patched ps\<rparr>)"
  by (induction ps arbitrary: c) (simp_all add: emit_def)

lemma call_rebuilders_result:
  "call_rebuilders rs c = c\<lparr>trace := trace c @ map Rebuilt rs\<rparr>"
  by (induction rs arbitrary: c) (simp_all add: emit_def)

lemma call_freers_result:
  "call_freers fs c = (map RebuilderOf fs, c\<lparr>trace := trace c @ map Freed fs\<rparr>)"
  by (induction fs arbitrary: c) (simp_all add: emit_def)

lemma mount_result:
  "mount c =
     c\<lparr>trace := trace c @ [SandboxActive] @
          map Rebuilt (take (length (bootstrappingFreers c)) (sideEffectsRebuilders c)) @
          map Patched (mountingPatchers (instance_type c)) @
          map Rebuilt (drop (length (bootstrappingFreers c)) (sideEffectsRebuilders c)),
        mountingFreers := map FreerOf (mountingPatchers (instance_type c)),
        sideEffectsRebuilders := []\<rparr>"
  by (simp add: mount_def Let_def emit_def call_rebuilders_result patchAtMounting_def
      call_patchers_result)

lemma unmount_result:
  "unmount c =
     c\<lparr>trace := trace c @ map Freed (bootstrappingFreers c @ mountingFreers c) @ [SandboxInactive],
        sideEffectsRebuilders := map RebuilderOf (bootstrappingFreers c @ mountingFreers c)\<rparr>"
  by (simp add: unmount_def Let_def emit_def call_freers_result)

lemma createSandboxContainer_result:
  "createSandboxContainer hasProxy useLooseSandbox =
     \<lparr>instance_type = (if hasProxy then (if useLooseSandbox then LegacyProxy else Proxy) else Snapshot),
      bootstrappingFreers = map FreerOf (bootstrappingPatchers
        (if hasProxy then (if useLooseSandbox then LegacyProxy else Proxy) else Snapshot)),
      mountingFreers = [],
      sideEffectsRebuilders = [],
      trace = map Patched (bootstrappingPatchers
        (if hasProxy then (if useLooseSandbox then LegacyProxy else Proxy) else Snapshot))\<rparr>"
  by (simp add: createSandboxContainer_def Let_def patchAtBootstrapping_def call_patchers_result)

text \<open>
  Claim C3. From any state of the container, \<^verbatim>\<open>mount()\<close> first activates the sandbox,
  then calls the rebuilders that stand in the list before position
  \<^verbatim>\<open>bootstrappingFreers.length\<close>, in order, then installs the mount-time patches, then
  calls the remaining rebuilders, and leaves the list empty; the freers it keeps are those
  the mount-time patchers returned, one for each patch and in the order of installation.
  After an \<^verbatim>\<open>unmount()\<close> the first group is exactly the rebuilders of the bootstrap-time
  freers, in the order of their installation, and the second exactly those of the
  mount-time freers that the unmount called. A second \<^verbatim>\<open>mount()\<close> with no \<^verbatim>\<open>unmount()\<close>
  in between calls no rebuilder.

  For a container that \<^verbatim>\<open>createSandboxContainer\<close> has just made, whatever the sandbox it
  chose: the first \<^verbatim>\<open>mount()\<close> activates the sandbox and installs the mount-time patches,
  with no rebuilder to call; and a cycle of \<^verbatim>\<open>mount()\<close>, \<^verbatim>\<open>unmount()\<close>, \<^verbatim>\<open>mount()\<close> has
  the second mount activate the sandbox, call the rebuilder of each bootstrap-time patch,
  install the mount-time patches again, call the rebuilder of each patch the first mount
  installed, and leave no rebuilder. The last three parts spell the whole cycle out for
  the three sandboxes: the proxy sandbox with the strict patcher of dynamic appends, the
  legacy and the snapshot sandbox with the loose one.
\<close>

theorem C3_mount_order:
  "trace (mount c) =
     trace c @ [SandboxActive] @
     map Rebuilt (take (length (bootstrappingFreers c)) (sideEffectsRebuilders c)) @
     map Patched (mountingPatchers (instance_type c)) @
     map Rebuilt (drop (length (bootstrappingFreers c)) (sideEffectsRebuilders c)) \<and>
   sideEffectsRebuilders (mount c) = [] \<and>
   mountingFreers (mount c) = map FreerOf (mountingPatchers (instance_type c)) \<and>
   bootstrappingFreers (mount c) = bootstrappingFreers c \<and>
   instance_type (mount c) = instance_type c \<and>
   trace (mount (unmount c)) =
     trace (unmount c) @ [SandboxActive] @
     map (Rebuilt \<circ> RebuilderOf) (bootstrappingFreers c) @
     map Patched (mountingPatchers (instance_type c)) @
     map (Rebuilt \<circ> RebuilderOf) (mountingFreers c) \<and>
   trace (mount (mount c)) =
     trace (mount c) @ [SandboxActive] @ map Patched (mountingPatchers (instance_type c)) \<and>
   trace (mount (createSandboxContainer hasProxy useLooseSandbox)) =
     trace (createSandboxContainer hasProxy useLooseSandbox) @ [SandboxActive] @
     map Patched (mountingPatchers
       (instance_type (createSandboxContainer hasProxy useLooseSandbox))) \<and>
   trace (mount (unmount (mount (createSandboxContainer hasProxy useLooseSandbox)))) =
     trace (unmount (mount (createSandboxContainer hasProxy useLooseSandbox))) @
     [SandboxActive] @
     map (Rebuilt \<circ> RebuilderOf \<circ> FreerOf) (bootstrappingPatchers
       (instance_type (createSandboxContainer hasProxy useLooseSandbox))) @
     map Patched (mountingPatchers
       (instance_type (createSandboxContainer hasProxy useLooseSandbox))) @
     map (Rebuilt \<circ> RebuilderOf \<circ> FreerOf) (mountingPatchers
       (instance_type (createSandboxContainer hasProxy useLooseSandbox))) \<and>
   sideEffectsRebuilders
     (mount (unmount (mount (createSandboxContainer hasProxy useLooseSandbox)))) = [] \<and>
   trace (mount (unmount (mount (createSandboxContainer True False)))) =
     [Patched (PatchStrictSandbox False),
      SandboxActive,
      Patched PatchInterval, Patched PatchWindowListener, Patched PatchHistoryListener,
      Patched (PatchStrictSandbox True),
      Freed (FreerOf (PatchStrictSandbox False)),
      Freed (FreerOf PatchInterval), Freed (FreerOf PatchWindowListener),
      Freed (FreerOf PatchHistoryListener), Freed (FreerOf (PatchStrictSandbox True)),
      SandboxInactive,
      SandboxActive,
      Rebuilt (RebuilderOf (FreerOf (PatchStrictSandbox False))),
      Patched PatchInterval, Patched PatchWindowListener, Patched PatchHistoryListener,
      Patched (PatchStrictSandbox True),
      Rebuilt (RebuilderOf (FreerOf PatchInterval)),
      Rebuilt (RebuilderOf (FreerOf PatchWindowListener)),
      Rebuilt (RebuilderOf (FreerOf PatchHistoryListener)),
      Rebuilt (RebuilderOf (FreerOf (PatchStrictSandbox True)))] \<and>
   trace (mount (unmount (mount (createSandboxContainer True True)))) =
     [Patched (PatchLooseSandbox False),
      SandboxActive,
      Patched PatchInterval, Patched PatchWindowListener, Patched PatchHistoryListener,
      Patched (PatchLooseSandbox True),
      Freed (FreerOf (PatchLooseSandbox False)),
      Freed (FreerOf PatchInterval), Freed (FreerOf PatchWindowListener),
      Freed (FreerOf PatchHistoryListener), Freed (FreerOf (PatchLooseSandbox True)),
      SandboxInactive,
      SandboxActive,
      Rebuilt (RebuilderOf (FreerOf (PatchLooseSandbox False))),
      Patched PatchInterval, Patched PatchWindowListener, Patched PatchHistoryListener,
      Patched (PatchLooseSandbox True),
      Rebuilt (RebuilderOf (FreerOf PatchInterval)),
      Rebuilt (RebuilderOf (FreerOf PatchWindowListener)),
      Rebuilt (RebuilderOf (FreerOf PatchHistoryListener)),
      Rebuilt (RebuilderOf (FreerOf (PatchLooseSandbox True)))] \<and>
   trace (mount (unmount (mount (createSandboxContainer False useLooseSandbox)))) =
     trace (mount (unmount (mount (createSandboxContainer True True)))) \<and>
   instance_type (createSandboxContainer False useLooseSandbox) = Snapshot \<and>
   instance_type (createSandboxContainer True True) = LegacyProxy \<and>
   instance_type (createSandboxContainer True False) = Proxy"
  by (simp add: mount_result unmount_result createSandboxContainer_result basePatchers_def)

section \<open>Properties of the window listener patcher\<close>

text \<open>
  A registration whose listener and capture value the cache already holds for the type
  changes nothing: no entry is added and the raw \<^verbatim>\<open>addEventListener\<close> is not called.
\<close>

lemma duplicate_registration_ignored:
  assumes "patched st"
    and "findListenerIndex (cached_listeners (listenerMap st) ty) raw (normalizeOptions rawOptions)
           \<noteq> None"
  shows "addEventListener ty raw rawOptions st = st"
  using assms by (auto simp: addEventListener_def addCacheListener_def Let_def)

text \<open>
  The capture values are compared with \<^verbatim>\<open>===\<close>, as they stand after
  \<^verbatim>\<open>normalizeOptions\<close>, which leaves an options object as it is: \<^verbatim>\<open>false\<close> and the
  absent capture of \<^verbatim>\<open>{}\<close> differ, although the browser takes both as \<^verbatim>\<open>false\<close>. A
  listener registered with \<^verbatim>\<open>false\<close> and then with \<^verbatim>\<open>{}\<close> has two entries in the cache
  and the raw \<^verbatim>\<open>addEventListener\<close> is called twice; the browser holds it once.
\<close>

lemma absent_capture_registered_again:
  "map (\<lambda>item. (rawListener item, opt_capture (options item)))
     (cached_listeners (listenerMap
        (addEventListener ''click'' (Listener 1)
           (RawObject \<lparr>opt_capture = None, opt_once = None, opt_passive = None\<rparr>)
           (addEventListener ''click'' (Listener 1) (RawBool False)
              (patch_window_listener quiet_window)))) ''click'')
     = [(Listener 1, Some False), (Listener 1, None)] \<and>
   raw_calls (real_global
        (addEventListener ''click'' (Listener 1)
           (RawObject \<lparr>opt_capture = None, opt_once = None, opt_passive = None\<rparr>)
           (addEventListener ''click'' (Listener 1) (RawBool False)
              (patch_window_listener quiet_window))))
     = [RawAdd ''click'' (Listener 1)
          \<lparr>opt_capture = Some False, opt_once = Some False, opt_passive = Some False\<rparr>,
        RawAdd ''click'' (Listener 1)
          \<lparr>opt_capture = None, opt_once = None, opt_passive = None\<rparr>] \<and>
   registered (real_global
        (addEventListener ''click'' (Listener 1)
           (RawObject \<lparr>opt_capture = None, opt_once = None, opt_passive = None\<rparr>)
           (addEventListener ''click'' (Listener 1) (RawBool False)
              (patch_window_listener quiet_window))))
     = [(''click'', Listener 1, False)]"
  by code_simp

text \<open>
  Claim C7 fails on the code. Its first half holds only as far as the capture values
  are \<^verbatim>\<open>===\<close> (see the two lemmas above). Its second half fails: two listeners are
  registered for \<^verbatim>\<open>click\<close> and \<^verbatim>\<open>free()\<close> is called: while \<^verbatim>\<open>forEach\<close> walks the array
  of the type, \<^verbatim>\<open>removeEventListener\<close> splices that same array, so the listener that
  moved to index 0 is never visited. The second listener is still registered on the real
  global after \<^verbatim>\<open>free()\<close>, which has emptied the map and put the raw functions back.
\<close>

theorem C7_free_leaves_a_listener_registered:
  "registered (real_global (free_window_listener
     (addEventListener ''click'' (Listener 2) RawUndefined
       (addEventListener ''click'' (Listener 1) RawUndefined
         (patch_window_listener quiet_window)))))
   = [(''click'', Listener 2, False)] \<and>
   listenerMap (free_window_listener
     (addEventListener ''click'' (Listener 2) RawUndefined
       (addEventListener ''click'' (Listener 1) RawUndefined
         (patch_window_listener quiet_window)))) = [] \<and>
   \<not> patched (free_window_listener
     (addEventListener ''click'' (Listener 2) RawUndefined
       (addEventListener ''click'' (Listener 1) RawUndefined
         (patch_window_listener quiet_window))))"
  by code_simp

section \<open>Properties of the CSS scoping engine\<close>

text \<open>
  Claim C8. With the prefix \<^verbatim>\<open>div[data-ns="a"]\<close>, the rule \<^verbatim>\<open>body { margin: 0; }\<close>, whose
  selector is a root selector, becomes \<^verbatim>\<open>div[data-ns="a"] { margin: 0; }\<close>: the prefix
  stands in the place of the selector. The rule \<^verbatim>\<open>.title { color: red; }\<close> becomes
  \<^verbatim>\<open>div[data-ns="a"] .title { color: red; }\<close>: the prefix stands before the selector. The
  same holds for the root selectors \<^verbatim>\<open>html\<close> and \<^verbatim>\<open>:root\<close>, and for the rules as
  \<^verbatim>\<open>rewrite\<close> receives them.
\<close>

theorem C8_root_selector_replaced_and_ordinary_selector_prefixed:
  "ruleStyle ''body'' (Some ''body { margin: 0; }'') example_prefix
     = example_prefix @ '' { margin: 0; }'' \<and>
   ruleStyle ''.title'' (Some ''.title { color: red; }'') example_prefix
     = example_prefix @ '' .title { color: red; }'' \<and>
   ruleStyle ''html'' (Some ''html { margin: 0; }'') example_prefix
     = example_prefix @ '' { margin: 0; }'' \<and>
   ruleStyle '':root'' (Some '':root { margin: 0; }'') example_prefix
     = example_prefix @ '' { margin: 0; }'' \<and>
   rewrite [StyleRule ''body'' (Some ''body { margin: 0; }''),
            StyleRule ''.title'' (Some ''.title { color: red; }'')] example_prefix
     = example_prefix @ '' { margin: 0; }'' @ example_prefix @ '' .title { color: red; }''"
  by code_simp

text \<open>
  Claim C9. A style element that carries the tag is returned by \<^verbatim>\<open>process\<close> as it is,
  whatever the prefix; a call of \<^verbatim>\<open>process\<close> on an untagged element with text rewrites
  and tags it, so every later call, with any prefix, leaves the element, and so its text,
  as the first call left it.
\<close>

theorem C9_process_skips_tagged_element:
  "(modified_tag styleNode \<longrightarrow> process cssRules styleNode prefix = styleNode) \<and>
   (textContent styleNode \<noteq> [] \<longrightarrow>
      modified_tag (process cssRules styleNode prefix) \<and>
      process cssRules (process cssRules styleNode prefix) prefix' =
        process cssRules styleNode prefix \<and>
      textContent (process cssRules (process cssRules styleNode prefix) prefix') =
        textContent (process cssRules styleNode prefix))"
  by (simp add: process_def Let_def)

theorem C9_witness:
  "textContent \<lparr>textContent = ''.title { color: red; }'', modified_tag = False, observers = []\<rparr>
     \<noteq> [] \<and>
   textContent (process (\<lambda>t. [StyleRule ''.title'' (Some t)])
      \<lparr>textContent = ''.title { color: red; }'', modified_tag = False, observers = []\<rparr>
      example_prefix) = example_prefix @ '' .title { color: red; }'' \<and>
   modified_tag (process (\<lambda>t. [StyleRule ''.title'' (Some t)])
      \<lparr>textContent = ''.title { color: red; }'', modified_tag = False, observers = []\<rparr>
      example_prefix) \<and>
   textContent (process (\<lambda>t. [StyleRule ''.title'' (Some t)])
      (process (\<lambda>t. [StyleRule ''.title'' (Some t)])
         \<lparr>textContent = ''.title { color: red; }'', modified_tag = False, observers = []\<rparr>
         example_prefix) ''span'') = example_prefix @ '' .title { color: red; }''"
proof -
  let ?n = "\<lparr>textContent = ''.title { color: red; }'', modified_tag = False, observers = []\<rparr>"
  let ?c = "\<lambda>t. [StyleRule ''.title'' (Some t)]"
  have r: "ruleStyle ''.title'' (Some ''.title { color: red; }'') example_prefix
     = example_prefix @ '' .title { color: red; }''"
    by code_simp
  have first: "textContent (process ?c ?n example_prefix) = example_prefix @ '' .title { color: red; }''"
    by (simp add: process_def Let_def rewrite_def r)
  have ne: "textContent ?n \<noteq> []" by simp
  from C9_process_skips_tagged_element [of ?n ?c example_prefix "''span''"] ne
  have "modified_tag (process ?c ?n example_prefix)"
    and "textContent (process ?c (process ?c ?n example_prefix) ''span'') =
         textContent (process ?c ?n example_prefix)"
    by blast+
  with first ne show ?thesis by simp
qed

end
